theory Spec2Isabelle
  imports Complex_Main
begin

section \<open>Python values, strings and exceptions\<close>

text \<open>
  The values that travel through a request-parameter dictionary of
  \<^verbatim>\<open>ogcserver/common.py\<close>: \<^verbatim>\<open>None\<close>, booleans, integers, byte strings and lists
  of these.
\<close>

datatype pyval = PNone | PBool bool | PInt int | PStr string | PList "pyval list"

text \<open>Python's truth value of an object, as tested by \<^verbatim>\<open>if x\<close> and \<^verbatim>\<open>x and y\<close>.\<close>

fun truthy :: "pyval \<Rightarrow> bool" where
  "truthy PNone = False"
| "truthy (PBool b) = b"
| "truthy (PInt i) = (i \<noteq> 0)"
| "truthy (PStr s) = (s \<noteq> [])"
| "truthy (PList xs) = (xs \<noteq> [])"

text \<open>Python's \<^verbatim>\<open>==\<close> on these values: a boolean equals the integer 0 or 1 it stands for.\<close>

fun py_eq :: "pyval \<Rightarrow> pyval \<Rightarrow> bool" and py_eq_list :: "pyval list \<Rightarrow> pyval list \<Rightarrow> bool" where
  "py_eq PNone PNone = True"
| "py_eq (PBool a) (PBool b) = (a = b)"
| "py_eq (PBool a) (PInt j) = ((if a then 1 else 0) = j)"
| "py_eq (PInt i) (PBool b) = (i = (if b then 1 else 0))"
| "py_eq (PInt i) (PInt j) = (i = j)"
| "py_eq (PStr s) (PStr t) = (s = t)"
| "py_eq (PList xs) (PList ys) = py_eq_list xs ys"
| "py_eq _ _ = False"
| "py_eq_list [] [] = True"
| "py_eq_list (x # xs) (y # ys) = (py_eq x y \<and> py_eq_list xs ys)"
| "py_eq_list _ _ = False"

text \<open>\<^verbatim>\<open>x in t\<close> for a tuple \<^verbatim>\<open>t\<close>: some element equals \<^verbatim>\<open>x\<close>.\<close>

definition py_in :: "pyval \<Rightarrow> pyval list \<Rightarrow> bool" where
  "py_in x t = list_ex (py_eq x) t"

text \<open>
  \<^verbatim>\<open>str.lower()\<close> and \<^verbatim>\<open>str.upper()\<close> of a Python 2 byte string (C locale): only the
  letters A to Z and a to z change.
\<close>

definition lower_char :: "char \<Rightarrow> char" where
  "lower_char c =
     (case map_of (zip ''ABCDEFGHIJKLMNOPQRSTUVWXYZ'' ''abcdefghijklmnopqrstuvwxyz'') c of
        Some d \<Rightarrow> d | None \<Rightarrow> c)"

definition lower :: "string \<Rightarrow> string" where
  "lower s = map lower_char s"

definition upper_char :: "char \<Rightarrow> char" where
  "upper_char c =
     (case map_of (zip ''abcdefghijklmnopqrstuvwxyz'' ''ABCDEFGHIJKLMNOPQRSTUVWXYZ'') c of
        Some d \<Rightarrow> d | None \<Rightarrow> c)"

definition upper :: "string \<Rightarrow> string" where
  "upper s = map upper_char s"

text \<open>\<^verbatim>\<open>'%s' % n\<close> for an integer \<^verbatim>\<open>n\<close>: its decimal digits, with a sign when negative.\<close>

definition digit_char :: "nat \<Rightarrow> char" where
  "digit_char d = ''0123456789'' ! d"

fun show_nat :: "nat \<Rightarrow> string" where
  "show_nat n =
     (if n < 10 then [digit_char n] else show_nat (n div 10) @ [digit_char (n mod 10)])"

declare show_nat.simps [simp del]

definition show_int :: "int \<Rightarrow> string" where
  "show_int i = (if i < 0 then ''-'' @ show_nat (nat (- i)) else show_nat (nat i))"

text \<open>
  The text of an \<^verbatim>\<open>OGCException\<close> is kept as its format string (one constructor for
  each \<^verbatim>\<open>raise\<close> of the module) together with the arguments filled in:
  \<^item> \<open>Mandatory_missing p\<close>: \<^verbatim>\<open>'Mandatory parameter "%s" missing from request.' % p\<close>
  \<^item> \<open>Invalid_value v p\<close>: \<^verbatim>\<open>'Invalid value "%s" for parameter "%s".' % (v, p)\<close>
  \<^item> \<open>Illegal_value p\<close>: \<^verbatim>\<open>'Parameter "%s" has an illegal value.' % p\<close>
  \<^item> \<open>Unsupported_CRS s\<close>: \<^verbatim>\<open>'Unsupported CRS "%s" requested.' % s\<close>
  \<^item> \<open>BBox_minx\<close>: \<^verbatim>\<open>"BBOX values don't make sense.  minx is greater than maxx."\<close>
  \<^item> \<open>BBox_miny\<close>: \<^verbatim>\<open>"BBOX values don't make sense.  miny is greater than maxy."\<close>
  \<^item> \<open>Layer_not_defined l\<close>: \<^verbatim>\<open>'Layer "%s" not defined.' % l\<close>
  \<^item> \<open>Invalid_style s l\<close>: \<^verbatim>\<open>'Invalid style "%s" requested for layer "%s".' % (s, l)\<close>
  \<^item> \<open>Not_queryable l\<close>: \<^verbatim>\<open>'Requested query layer "%s" is not marked queryable.' % l\<close>
  \<^item> \<open>Not_in_layers l\<close>: \<^verbatim>\<open>'Requested query layer "%s" not in the LAYERS parameter.' % l\<close>
  \<^item> \<open>Message s\<close>: any other text, as raised by a cast callable.
\<close>

datatype ogc_message =
    Mandatory_missing string
  | Invalid_value pyval string
  | Illegal_value string
  | Unsupported_CRS string
  | BBox_minx
  | BBox_miny
  | Layer_not_defined string
  | Invalid_style string string
  | Not_queryable string
  | Not_in_layers string
  | Message string

text \<open>
  What a call can raise. \<open>OGCException msg code\<close> carries the optional second argument
  (the OGC exception code); \<open>ServerConfigurationError l s\<close> is
  \<^verbatim>\<open>'Layer "%s" refers to non-existent style "%s".' % (l, s)\<close>; the others are the Python
  built-in exceptions of a missing dictionary key, an index out of range, a missing
  attribute and a local variable read before assignment. \<open>OtherError\<close> is any further
  exception a cast callable may raise (\<^verbatim>\<open>ValueError\<close>, \<^verbatim>\<open>TypeError\<close>, ...).
\<close>

datatype exn =
    OGCException ogc_message "string option"
  | ServerConfigurationError string string
  | KeyError string
  | IndexError
  | AttributeError string
  | UnboundLocalError string
  | OtherError string

text \<open>
  A \<^verbatim>\<open>for\<close> loop whose body may raise. The first component of the state is what the
  caller still sees after an exception (a dictionary passed by reference, the object
  store); the second is local to the call and lost when the loop raises.
\<close>

fun for_each :: "('x \<Rightarrow> 's \<times> 'a \<Rightarrow> 's \<times> (exn + 'a)) \<Rightarrow> 'x list \<Rightarrow> 's \<times> 'a \<Rightarrow> 's \<times> (exn + 'a)" where
  "for_each f [] (s, a) = (s, Inr a)"
| "for_each f (x # xs) (s, a) =
     (case f x (s, a) of
        (s', Inl e) \<Rightarrow> (s', Inl e)
      | (s', Inr a') \<Rightarrow> for_each f xs (s', a'))"

text \<open>The same for a loop that only changes local variables.\<close>

fun for_each_local :: "('x \<Rightarrow> 'a \<Rightarrow> exn + 'a) \<Rightarrow> 'x list \<Rightarrow> 'a \<Rightarrow> exn + 'a" where
  "for_each_local f [] a = Inr a"
| "for_each_local f (x # xs) a =
     (case f x a of Inl e \<Rightarrow> Inl e | Inr a' \<Rightarrow> for_each_local f xs a')"

section \<open>ParameterDefinition and processParameters\<close>

text \<open>
  \<^verbatim>\<open>class ParameterDefinition\<close>. The callable \<^verbatim>\<open>cast\<close> returns the cast value or raises.
  \<^verbatim>\<open>allowedvalues\<close> is \<^verbatim>\<open>None\<close> or a tuple, as the constructor demands of every value
  that is true; \<^verbatim>\<open>default\<close> is any value, \<^verbatim>\<open>None\<close> when not given.
\<close>

record paramdef =
  mandatory :: bool
  cast :: "pyval \<Rightarrow> exn + pyval"
  default_value :: pyval
  allowedvalues :: "pyval list option"
  fallback :: bool

text \<open>The truth value of \<^verbatim>\<open>paramdef.allowedvalues\<close>: false for \<^verbatim>\<open>None\<close> and for the empty tuple.\<close>

definition has_allowedvalues :: "paramdef \<Rightarrow> bool" where
  "has_allowedvalues d = (case allowedvalues d of None \<Rightarrow> False | Some t \<Rightarrow> t \<noteq> [])"

type_synonym pydict = "string \<rightharpoonup> pyval"

text \<open>
  The body of the loop of \<^verbatim>\<open>processParameters\<close> (lines 102 to 119) for one item of the
  schema. The state is the caller's dictionary \<^verbatim>\<open>params\<close>, which line 106 assigns to,
  and the local \<^verbatim>\<open>finalparams\<close>.
\<close>

definition process_param :: "string \<times> paramdef \<Rightarrow> pydict \<times> pydict \<Rightarrow> pydict \<times> (exn + pydict)" where
  "process_param item st =
     (let (paramname, paramdef) = item; (params, finalparams) = st in
      case params paramname of
        None \<Rightarrow>
          if mandatory paramdef
          then (params, Inl (OGCException (Mandatory_missing paramname) None))
          else if truthy (default_value paramdef)
          then (params, Inr (finalparams(paramname \<mapsto> default_value paramdef)))
          else (params, Inr finalparams)
      | Some raw \<Rightarrow>
          (case cast paramdef raw of
             Inl (OGCException msg code) \<Rightarrow> (params, Inl (OGCException msg code))
           | Inl _ \<Rightarrow> (params, Inl (OGCException (Invalid_value raw paramname) None))
           | Inr v \<Rightarrow>
               let params' = params(paramname \<mapsto> v) in
               if has_allowedvalues paramdef \<and> \<not> py_in v (the (allowedvalues paramdef))
               then if \<not> fallback paramdef
                    then (params', Inl (OGCException (Illegal_value paramname) None))
                    else (params', Inr (finalparams(paramname \<mapsto> default_value paramdef)))
               else (params', Inr (finalparams(paramname \<mapsto> v)))))"

text \<open>
  \<^verbatim>\<open>processParameters(self, requestname, params)\<close>. \<^verbatim>\<open>SERVICE_PARAMS\<close> is a class
  attribute of the handler's subclass: for each request name the schema, given here by
  its \<^verbatim>\<open>items()\<close> in the order the dictionary yields them. The result is the caller's
  dictionary as the call leaves it and the returned \<^verbatim>\<open>finalparams\<close> or the exception.
\<close>

definition processParameters ::
  "(string \<rightharpoonup> (string \<times> paramdef) list) \<Rightarrow> string \<Rightarrow> pydict \<Rightarrow> pydict \<times> (exn + pydict)" where
  "processParameters SERVICE_PARAMS requestname params =
     (case SERVICE_PARAMS requestname of
        None \<Rightarrow> (params, Inl (KeyError requestname))
      | Some items \<Rightarrow> for_each process_param items (params, Map.empty))"

subsection \<open>Example callables and schemas\<close>

text \<open>
  Two cast callables for the examples. \<open>int_cast\<close> follows \<^verbatim>\<open>int\<close> on the values the
  examples pass: an integer is returned, a non-empty string of decimal digits is read
  as a number, a string with any other character raises \<^verbatim>\<open>ValueError\<close> (\<^verbatim>\<open>int\<close> also
  accepts a sign and blanks around the digits, which this callable rejects).
  \<open>str_cast\<close> returns its argument, as \<^verbatim>\<open>str\<close> does on a string.
\<close>

definition digit_value :: "char \<Rightarrow> nat option" where
  "digit_value c = map_of (zip ''0123456789'' [0, 1, 2, 3, 4, 5, 6, 7, 8, 9]) c"

fun read_digits :: "string \<Rightarrow> nat \<Rightarrow> nat option" where
  "read_digits [] n = Some n"
| "read_digits (c # cs) n =
     (case digit_value c of None \<Rightarrow> None | Some d \<Rightarrow> read_digits cs (10 * n + d))"

definition int_cast :: "pyval \<Rightarrow> exn + pyval" where
  "int_cast v =
     (case v of
        PInt i \<Rightarrow> Inr (PInt i)
      | PBool b \<Rightarrow> Inr (PInt (if b then 1 else 0))
      | PStr s \<Rightarrow>
          (if s = [] then Inl (OtherError ''ValueError'')
           else case read_digits s 0 of
                  None \<Rightarrow> Inl (OtherError ''ValueError'')
                | Some n \<Rightarrow> Inr (PInt (int n)))
      | _ \<Rightarrow> Inl (OtherError ''TypeError''))"

definition str_cast :: "pyval \<Rightarrow> exn + pyval" where
  "str_cast v = Inr v"

text \<open>
  A schema in the style of a WMS \<^verbatim>\<open>GetMap\<close> request, and one whose declared tuples of
  allowed values are empty.
\<close>

definition example_SERVICE_PARAMS :: "string \<rightharpoonup> (string \<times> paramdef) list" where
  "example_SERVICE_PARAMS =
     [''GetMap'' \<mapsto>
       [(''width'', \<lparr> mandatory = True, cast = int_cast, default_value = PNone,
                     allowedvalues = None, fallback = False \<rparr>),
        (''format'', \<lparr> mandatory = True, cast = str_cast, default_value = PNone,
                      allowedvalues = Some [PStr ''image/png'', PStr ''image/jpeg''],
                      fallback = False \<rparr>),
        (''exceptions'', \<lparr> mandatory = False, cast = str_cast,
                          default_value = PStr ''application/vnd.ogc.se_xml'',
                          allowedvalues = Some [PStr ''application/vnd.ogc.se_xml'', PStr ''text/html''],
                          fallback = True \<rparr>)]]"

definition empty_tuple_SERVICE_PARAMS :: "string \<rightharpoonup> (string \<times> paramdef) list" where
  "empty_tuple_SERVICE_PARAMS =
     [''GetMap'' \<mapsto>
       [(''format'', \<lparr> mandatory = True, cast = str_cast, default_value = PNone,
                      allowedvalues = Some [], fallback = False \<rparr>),
        (''exceptions'', \<lparr> mandatory = False, cast = str_cast,
                          default_value = PStr ''application/vnd.ogc.se_xml'',
                          allowedvalues = Some [], fallback = True \<rparr>)]]"

section \<open>CRS\<close>

text \<open>
  \<^verbatim>\<open>class CRS\<close>, built from a namespace and an integer code (\<^verbatim>\<open>int(code)\<close> is the code
  itself then). \<^verbatim>\<open>proj\<close> is the projection made on first use, \<^verbatim>\<open>None\<close> at first.
\<close>

record crs =
  namespace :: string
  code :: int
  proj :: "string option"

definition CRS :: "string \<Rightarrow> int \<Rightarrow> crs" where
  "CRS ns c = \<lparr> namespace = lower ns, code = c, proj = None \<rparr>"

text \<open>\<^verbatim>\<open>__repr__\<close>, which \<^verbatim>\<open>str()\<close> uses too: \<^verbatim>\<open>'%s:%s' % (self.namespace, self.code)\<close>.\<close>

definition crs_repr :: "crs \<Rightarrow> string" where
  "crs_repr self = namespace self @ '':'' @ show_int (code self)"

text \<open>\<^verbatim>\<open>__eq__\<close> against another CRS: \<^verbatim>\<open>str(other) == str(self)\<close>.\<close>

definition crs_eq :: "crs \<Rightarrow> crs \<Rightarrow> bool" where
  "crs_eq self other = (crs_repr other = crs_repr self)"

section \<open>Layers, the catalog and the Map\<close>

text \<open>
  A mapnik \<^verbatim>\<open>Color\<close> (red, green, blue, alpha) and an opaque mapnik \<^verbatim>\<open>Style\<close> object.
\<close>

datatype color = Color int int int int

datatype style = Style nat

text \<open>
  A mapnik \<^verbatim>\<open>Layer\<close> object with the attributes \<^verbatim>\<open>copy_layer\<close> reads. An attribute
  that an object may lack (\<^verbatim>\<open>hasattr\<close>) is an option: \<^verbatim>\<open>title\<close>, \<^verbatim>\<open>abstract\<close>,
  \<^verbatim>\<open>tolerance\<close>, \<^verbatim>\<open>toleranceunits\<close> and \<^verbatim>\<open>wms_srs\<close> depend on the mapnik version,
  \<^verbatim>\<open>wmsdefaultstyle\<close>, \<^verbatim>\<open>wmsextrastyles\<close> and \<^verbatim>\<open>meta_style\<close> are set on the Python
  object by the catalog loader. \<^verbatim>\<open>datasource\<close> holds a reference to a datasource
  object (or \<^verbatim>\<open>None\<close>); \<^verbatim>\<open>styles\<close> is the layer's own list of style names.
\<close>

type_synonym ds_ref = nat

record layer =
  name :: string
  title :: "string option"
  abstract :: "string option"
  tolerance :: "real option"
  toleranceunits :: "int option"
  srs :: string
  minzoom :: real
  maxzoom :: real
  active :: bool
  queryable :: bool
  clear_label_cache :: bool
  datasource :: "ds_ref option"
  wmsdefaultstyle :: "string option"
  wmsextrastyles :: "string list option"
  meta_style :: "string option"
  wms_srs :: "string option"
  styles :: "string list"

text \<open>
  Layer objects live in a store and are referred to by address: the catalog holds
  addresses, \<^verbatim>\<open>Layer(...)\<close> allocates the next free one, and
  \<^verbatim>\<open>layer.styles.append(s)\<close> changes the object at the address \<^verbatim>\<open>layer\<close> refers to.
\<close>

type_synonym addr = nat

type_synonym heap = "layer list"

text \<open>
  \<^verbatim>\<open>copy_layer(obj)\<close>, lines 281 to 307: a new \<^verbatim>\<open>Layer(obj.name)\<close>, whose style list is
  empty, receives the attributes of \<^verbatim>\<open>obj\<close> one by one. The new layer and \<^verbatim>\<open>obj\<close> are
  instances of the same mapnik class, so \<^verbatim>\<open>hasattr(lyr, a)\<close> holds for a version-dependent
  attribute \<^verbatim>\<open>a\<close> exactly when \<^verbatim>\<open>obj\<close> has it. \<^verbatim>\<open>styles\<close> is not assigned.
\<close>

definition copy_fields :: "layer \<Rightarrow> layer" where
  "copy_fields obj =
     \<lparr> name = name obj,
       title = title obj,
       abstract = abstract obj,
       tolerance = tolerance obj,
       toleranceunits = toleranceunits obj,
       srs = srs obj,
       minzoom = minzoom obj,
       maxzoom = maxzoom obj,
       active = active obj,
       queryable = queryable obj,
       clear_label_cache = clear_label_cache obj,
       datasource = datasource obj,
       wmsdefaultstyle = wmsdefaultstyle obj,
       wmsextrastyles = wmsextrastyles obj,
       meta_style = meta_style obj,
       wms_srs = wms_srs obj,
       styles = [] \<rparr>"

definition copy_layer :: "heap \<Rightarrow> addr \<Rightarrow> heap \<times> addr" where
  "copy_layer h obj = (h @ [copy_fields (h ! obj)], length h)"

text \<open>\<^verbatim>\<open>layer.styles.append(s)\<close> for the layer object at an address.\<close>

definition styles_append :: "heap \<Rightarrow> addr \<Rightarrow> string \<Rightarrow> heap" where
  "styles_append h a s = h[a := (h ! a)\<lparr> styles := styles (h ! a) @ [s] \<rparr>]"

text \<open>
  \<^verbatim>\<open>self.mapfactory\<close>, the catalog: the \<^verbatim>\<open>bgcolor\<close> and \<^verbatim>\<open>buffer_size\<close> entries of
  \<^verbatim>\<open>map_attributes\<close> (\<open>None\<close> when \<^verbatim>\<open>.get\<close> returns \<^verbatim>\<open>None\<close>), the list
  \<^verbatim>\<open>ordered_layers\<close> and the dictionaries \<^verbatim>\<open>layers\<close>, \<^verbatim>\<open>meta_layers\<close>, \<^verbatim>\<open>styles\<close>,
  \<^verbatim>\<open>meta_styles\<close> and \<^verbatim>\<open>aggregatestyles\<close>. Layers are held by reference.
\<close>

record mapfactory =
  mf_bgcolor :: "color option"
  mf_buffer_size :: "int option"
  mf_ordered_layers :: "addr list"
  mf_layers :: "string \<rightharpoonup> addr"
  mf_meta_layers :: "string \<rightharpoonup> addr"
  mf_styles :: "string \<rightharpoonup> style"
  mf_meta_styles :: "string \<rightharpoonup> style"
  mf_aggregatestyles :: "string \<rightharpoonup> string list"

text \<open>The handler \<^verbatim>\<open>self\<close>: the list \<^verbatim>\<open>allowedepsgcodes\<close> and the catalog.\<close>

record handler =
  allowedepsgcodes :: "string list"
  mapfactory :: mapfactory

text \<open>
  The validated parameters that \<^verbatim>\<open>_buildMap\<close> and \<^verbatim>\<open>GetFeatureInfo\<close> read, each
  \<open>None\<close> when the dictionary has no such key (reading it raises \<^verbatim>\<open>KeyError\<close>).
  \<^verbatim>\<open>bgcolor\<close> is a Color or \<^verbatim>\<open>None\<close>; \<^verbatim>\<open>bbox\<close> is the list \<^verbatim>\<open>ListFactory(float)\<close> made,
  of any length.
\<close>

record params =
  p_crs :: "crs option"
  p_bbox :: "real list option"
  p_width :: "int option"
  p_height :: "int option"
  p_transparent :: "string option"
  p_bgcolor :: "color option option"
  p_buffer_size :: "int option"
  p_layers :: "string list option"
  p_styles :: "string list option"
  p_query_layers :: "string list option"
  p_i :: "int option"
  p_j :: "int option"
  p_info_format :: "string option"

text \<open>
  The mapnik \<^verbatim>\<open>Map\<close> under construction. A new Map has no background, a buffer of 0, no
  style, no layer and no extent. \<^verbatim>\<open>append_style\<close> keeps the first style registered under
  a name; \<^verbatim>\<open>m.layers.append\<close> stores the layer as it is at that moment.
\<close>

record wmap =
  m_width :: int
  m_height :: int
  m_srs :: string
  m_background :: "color option"
  m_buffer_size :: int
  m_styles :: "(string \<times> style) list"
  m_layers :: "layer list"
  m_extent :: "(real \<times> real \<times> real \<times> real) option"

definition Map :: "int \<Rightarrow> int \<Rightarrow> string \<Rightarrow> wmap" where
  "Map w h s = \<lparr> m_width = w, m_height = h, m_srs = s, m_background = None,
                 m_buffer_size = 0, m_styles = [], m_layers = [], m_extent = None \<rparr>"

definition append_style :: "wmap \<Rightarrow> string \<Rightarrow> style \<Rightarrow> wmap" where
  "append_style m n st =
     (if n \<in> fst ` set (m_styles m) then m else m\<lparr> m_styles := m_styles m @ [(n, st)] \<rparr>)"

definition layers_append :: "wmap \<Rightarrow> layer \<Rightarrow> wmap" where
  "layers_append m l = m\<lparr> m_layers := m_layers m @ [l] \<rparr>"

section \<open>_buildMap\<close>

text \<open>Line 364: the CRS of the request must be one of \<^verbatim>\<open>self.allowedepsgcodes\<close>.\<close>

definition check_crs :: "handler \<Rightarrow> params \<Rightarrow> exn option" where
  "check_crs self params =
     (case p_crs params of
        None \<Rightarrow> Some (KeyError ''crs'')
      | Some c \<Rightarrow>
          if crs_repr c \<notin> set (allowedepsgcodes self)
          then Some (OGCException (Unsupported_CRS (upper (crs_repr c))) (Some ''InvalidCRS''))
          else None)"

text \<open>Lines 366 to 369: the two comparisons on the bounding box, each reading two items.\<close>

definition check_bbox :: "params \<Rightarrow> exn option" where
  "check_bbox params =
     (case p_bbox params of
        None \<Rightarrow> Some (KeyError ''bbox'')
      | Some bbox \<Rightarrow>
          if length bbox \<le> 2 then Some IndexError
          else if bbox ! 0 \<ge> bbox ! 2 then Some (OGCException BBox_minx None)
          else if length bbox \<le> 3 then Some IndexError
          else if bbox ! 1 \<ge> bbox ! 3 then Some (OGCException BBox_miny None)
          else None)"

text \<open>Line 376: \<^verbatim>\<open>Map(params['width'], params['height'], '+init=%s' % params['crs'])\<close>.\<close>

definition new_Map :: "params \<Rightarrow> exn + wmap" where
  "new_Map params =
     (case p_width params of
        None \<Rightarrow> Inl (KeyError ''width'')
      | Some w \<Rightarrow>
          (case p_height params of
             None \<Rightarrow> Inl (KeyError ''height'')
           | Some h \<Rightarrow>
               (case p_crs params of
                  None \<Rightarrow> Inl (KeyError ''crs'')
                | Some c \<Rightarrow> Inr (Map w h (''+init='' @ crs_repr c)))))"

text \<open>Lines 378 to 384: the background.\<close>

definition set_background :: "handler \<Rightarrow> params \<Rightarrow> wmap \<Rightarrow> exn + wmap" where
  "set_background self params m =
     (if p_transparent params \<noteq> None
         \<and> the (p_transparent params) \<in> set [''FALSE'', ''False'', ''false'']
      then (case p_bgcolor params of
              None \<Rightarrow> Inl (KeyError ''bgcolor'')
            | Some None \<Rightarrow> Inr m
            | Some (Some c) \<Rightarrow> Inr (m\<lparr> m_background := Some c \<rparr>))
      else if p_transparent params = None \<and> mf_bgcolor (mapfactory self) \<noteq> None
      then Inr (m\<lparr> m_background := mf_bgcolor (mapfactory self) \<rparr>)
      else Inr (m\<lparr> m_background := Some (Color 0 0 0 0) \<rparr>))"

text \<open>Lines 386 to 392: the buffer. A buffer of 0 is false and sets nothing.\<close>

definition set_buffer_size :: "handler \<Rightarrow> params \<Rightarrow> wmap \<Rightarrow> wmap" where
  "set_buffer_size self params m =
     (case p_buffer_size params of
        Some b \<Rightarrow> if b \<noteq> 0 then m\<lparr> m_buffer_size := b \<rparr> else m
      | None \<Rightarrow>
          (case mf_buffer_size (mapfactory self) of
             None \<Rightarrow> m
           | Some b \<Rightarrow> if b \<noteq> 0 then m\<lparr> m_buffer_size := b \<rparr> else m))"

text \<open>
  Lines 416 to 420 and 447 to 451: an aggregate style contributes its member styles to
  \<^verbatim>\<open>layer.styles\<close>, any other style its own name.
\<close>

definition append_requested_style :: "mapfactory \<Rightarrow> heap \<Rightarrow> addr \<Rightarrow> string \<Rightarrow> heap" where
  "append_requested_style mf h layer reqstyle =
     (case mf_aggregatestyles mf reqstyle of
        Some stylenames \<Rightarrow> foldl (\<lambda>h' stylename. styles_append h' layer stylename) h stylenames
      | None \<Rightarrow> styles_append h layer reqstyle)"

text \<open>Lines 397 to 404, the body of the loop for the overlay names.\<close>

definition overlay_body :: "mapfactory \<Rightarrow> addr \<Rightarrow> heap \<times> wmap \<Rightarrow> heap \<times> (exn + wmap)" where
  "overlay_body mf layer_obj st =
     (let (h, m) = st; (h1, layer) = copy_layer h layer_obj in
      case meta_style (h1 ! layer) of
        None \<Rightarrow> (h1, Inr m)
      | Some ms \<Rightarrow>
          let h2 = styles_append h1 layer ms in
          (case mf_meta_styles mf ms of
             None \<Rightarrow> (h2, Inl (KeyError ms))
           | Some sty \<Rightarrow> (h2, Inr (layers_append (append_style m ms sty) (h2 ! layer)))))"

text \<open>Lines 408 to 424, the body of the loop for \<^verbatim>\<open>__all__\<close>.\<close>

definition all_body :: "mapfactory \<Rightarrow> addr \<Rightarrow> heap \<times> wmap \<Rightarrow> heap \<times> (exn + wmap)" where
  "all_body mf layer_obj st =
     (let (h, m) = st; (h1, layer) = copy_layer h layer_obj in
      if meta_style (h1 ! layer) \<noteq> None then (h1, Inr m)
      else
        (case wmsdefaultstyle (h1 ! layer) of
           None \<Rightarrow> (h1, Inl (AttributeError ''wmsdefaultstyle''))
         | Some reqstyle \<Rightarrow>
             let h2 = append_requested_style mf h1 layer reqstyle;
                 m1 = foldl (\<lambda>m' stylename.
                               case mf_styles mf stylename of
                                 Some sty \<Rightarrow> append_style m' stylename sty
                               | None \<Rightarrow> m')
                        m (styles (h2 ! layer))
             in (h2, Inr (layers_append m1 (h2 ! layer)))))"

text \<open>
  Lines 439 to 446: the style requested for the layer at position \<^verbatim>\<open>layerindex\<close>, the
  empty string when \<^verbatim>\<open>params['styles']\<close> has no such position; a style that is not
  empty must be one of \<^verbatim>\<open>layer.wmsextrastyles\<close>, an empty one stands for
  \<^verbatim>\<open>layer.wmsdefaultstyle\<close>.
\<close>

definition requested_style :: "params \<Rightarrow> nat \<Rightarrow> string \<Rightarrow> layer \<Rightarrow> exn + string" where
  "requested_style params layerindex layername layer =
     (case p_styles params of
        None \<Rightarrow> Inl (KeyError ''styles'')
      | Some sts \<Rightarrow>
          let reqstyle = (if layerindex < length sts then sts ! layerindex else []) in
          if reqstyle \<noteq> []
          then (case wmsextrastyles layer of
                  None \<Rightarrow> Inl (AttributeError ''wmsextrastyles'')
                | Some extra \<Rightarrow>
                    if reqstyle \<notin> set extra
                    then Inl (OGCException (Invalid_style reqstyle layername) (Some ''StyleNotDefined''))
                    else Inr reqstyle)
          else (case wmsdefaultstyle layer of
                  None \<Rightarrow> Inl (AttributeError ''wmsdefaultstyle'')
                | Some d \<Rightarrow> Inr d))"

text \<open>Lines 453 to 457: every style of the layer must be in the catalog's style table.\<close>

definition register_style :: "mapfactory \<Rightarrow> string \<Rightarrow> string \<Rightarrow> wmap \<Rightarrow> exn + wmap" where
  "register_style mf layername stylename m =
     (case mf_styles mf stylename of
        Some sty \<Rightarrow> Inr (append_style m stylename sty)
      | None \<Rightarrow> Inl (ServerConfigurationError layername stylename))"

text \<open>Lines 426 to 459, the body of the loop over \<^verbatim>\<open>enumerate(params['layers'])\<close>.\<close>

definition explicit_body ::
  "mapfactory \<Rightarrow> params \<Rightarrow> nat \<times> string \<Rightarrow> heap \<times> wmap \<Rightarrow> heap \<times> (exn + wmap)" where
  "explicit_body mf params item st =
     (let (layerindex, layername) = item; (h, m) = st in
      case mf_meta_layers mf layername of
        Some obj \<Rightarrow>
          let (h1, layer) = copy_layer h obj;
              h2 = styles_append h1 layer layername
          in (case mf_meta_styles mf layername of
                None \<Rightarrow> (h2, Inl (KeyError layername))
              | Some sty \<Rightarrow> (h2, Inr (layers_append (append_style m layername sty) (h2 ! layer))))
      | None \<Rightarrow>
          (case mf_layers mf layername of
             None \<Rightarrow> (h, Inl (OGCException (Layer_not_defined layername) (Some ''LayerNotDefined'')))
           | Some obj \<Rightarrow>
               let (h1, layer) = copy_layer h obj in
               (case requested_style params layerindex layername (h1 ! layer) of
                  Inl e \<Rightarrow> (h1, Inl e)
                | Inr reqstyle \<Rightarrow>
                    let h2 = append_requested_style mf h1 layer reqstyle in
                    (case for_each_local (register_style mf layername) (styles (h2 ! layer)) m of
                       Inl e \<Rightarrow> (h2, Inl e)
                     | Inr m1 \<Rightarrow> (h2, Inr (layers_append m1 (h2 ! layer)))))))"

text \<open>Line 460: \<^verbatim>\<open>m.zoom_to_box(Envelope(bbox[0], bbox[1], bbox[2], bbox[3]))\<close>.\<close>

definition zoom_to_box :: "params \<Rightarrow> wmap \<Rightarrow> exn + wmap" where
  "zoom_to_box params m =
     (case p_bbox params of
        None \<Rightarrow> Inl (KeyError ''bbox'')
      | Some bbox \<Rightarrow>
          if length bbox < 4 then Inl IndexError
          else Inr (m\<lparr> m_extent := Some (bbox ! 0, bbox ! 1, bbox ! 2, bbox ! 3) \<rparr>))"

text \<open>
  Lines 396 to 459: the three ways of naming the layers, tested in this order.
\<close>

definition add_layers :: "handler \<Rightarrow> params \<Rightarrow> string list \<Rightarrow> heap \<times> wmap \<Rightarrow> heap \<times> (exn + wmap)" where
  "add_layers self params ls st =
     (if ls \<noteq> [] \<and> hd ls \<in> set [''osm_haiti_overlay'', ''osm_haiti_overlay_900913'']
      then for_each (overlay_body (mapfactory self)) (mf_ordered_layers (mapfactory self)) st
      else if ls \<noteq> [] \<and> hd ls = ''__all__''
      then for_each (all_body (mapfactory self)) (mf_ordered_layers (mapfactory self)) st
      else for_each (explicit_body (mapfactory self) params) (enumerate 0 ls) st)"

text \<open>Lines 364 to 392: the checks and the Map before any layer is added.\<close>

definition map_before_layers :: "handler \<Rightarrow> params \<Rightarrow> exn + wmap" where
  "map_before_layers self params =
     (case check_crs self params of
        Some e \<Rightarrow> Inl e
      | None \<Rightarrow>
     (case check_bbox params of
        Some e \<Rightarrow> Inl e
      | None \<Rightarrow>
     (case new_Map params of
        Inl e \<Rightarrow> Inl e
      | Inr m0 \<Rightarrow>
     (case set_background self params m0 of
        Inl e \<Rightarrow> Inl e
      | Inr m1 \<Rightarrow> Inr (set_buffer_size self params m1)))))"

text \<open>
  \<^verbatim>\<open>_buildMap(self, params)\<close>, from the store before the call to the store after it and
  the Map or the exception.
\<close>

definition buildMap :: "handler \<Rightarrow> params \<Rightarrow> heap \<Rightarrow> heap \<times> (exn + wmap)" where
  "buildMap self params h =
     (case map_before_layers self params of
        Inl e \<Rightarrow> (h, Inl e)
      | Inr m \<Rightarrow>
     (case p_layers params of
        None \<Rightarrow> (h, Inl (KeyError ''layers''))
      | Some ls \<Rightarrow>
     (case add_layers self params ls (h, m) of
        (h', Inl e) \<Rightarrow> (h', Inl e)
      | (h', Inr m2) \<Rightarrow> (h', zoom_to_box params m2))))"

section \<open>Feature info writers and GetFeatureInfo\<close>

text \<open>
  An element of an lxml tree: tag, attributes, text and children. The features a point
  query returns are lists of properties, a name and the value in its string form.
\<close>

datatype xml = Element string "(string \<times> string) list" "string option" "xml list"

fun xml_children :: "xml \<Rightarrow> xml list" where
  "xml_children (Element t a x cs) = cs"

fun append_child :: "xml \<Rightarrow> xml \<Rightarrow> xml" where
  "append_child (Element t a x cs) c = Element t a x (cs @ [c])"

fun set_child :: "xml \<Rightarrow> nat \<Rightarrow> xml \<Rightarrow> xml" where
  "set_child (Element t a x cs) i c = Element t a x (cs[i := c])"

type_synonym feature = "(string \<times> string) list"

definition newline :: string where
  "newline = [CHR 0x0A]"

text \<open>
  \<^verbatim>\<open>class TextFeatureInfo\<close> holds its buffer. \<^verbatim>\<open>class XMLFeatureInfo\<close> holds the root
  element parsed from \<^verbatim>\<open>basexml\<close> and, once set, \<^verbatim>\<open>currentlayer\<close> and
  \<^verbatim>\<open>currentfeature\<close>: references into the tree, kept as the position of the layer under
  the root and of the feature under that layer.
\<close>

record xmlinfo =
  rootelement :: xml
  currentlayer :: "nat option"
  currentfeature :: "(nat \<times> nat) option"

datatype writer = TextFeatureInfo string | XMLFeatureInfo xmlinfo

definition new_TextFeatureInfo :: writer where
  "new_TextFeatureInfo = TextFeatureInfo []"

definition new_XMLFeatureInfo :: writer where
  "new_XMLFeatureInfo =
     XMLFeatureInfo \<lparr> rootelement = Element ''resultset'' [] (Some (newline @ ''    '')) [],
                      currentlayer = None, currentfeature = None \<rparr>"

fun addlayer :: "writer \<Rightarrow> string \<Rightarrow> writer" where
  "addlayer (TextFeatureInfo buffer) name' =
     TextFeatureInfo (buffer @ newline @ ''['' @ name' @ '']'' @ newline)"
| "addlayer (XMLFeatureInfo x) name' =
     XMLFeatureInfo (x\<lparr> rootelement :=
                          append_child (rootelement x) (Element ''layer'' [(''name'', name')] None []),
                       currentlayer := Some (length (xml_children (rootelement x))) \<rparr>)"

fun addfeature :: "writer \<Rightarrow> exn + writer" where
  "addfeature (TextFeatureInfo buffer) = Inr (TextFeatureInfo buffer)"
| "addfeature (XMLFeatureInfo x) =
     (case currentlayer x of
        None \<Rightarrow> Inl (AttributeError ''currentlayer'')
      | Some l \<Rightarrow>
          let layer = xml_children (rootelement x) ! l in
          Inr (XMLFeatureInfo
                 (x\<lparr> rootelement :=
                        set_child (rootelement x) l (append_child layer (Element ''feature'' [] None [])),
                     currentfeature := Some (l, length (xml_children layer)) \<rparr>)))"

fun addattribute :: "writer \<Rightarrow> string \<Rightarrow> string \<Rightarrow> exn + writer" where
  "addattribute (TextFeatureInfo buffer) name' value =
     Inr (TextFeatureInfo (buffer @ name' @ ''='' @ value @ newline))"
| "addattribute (XMLFeatureInfo x) name' value =
     (case currentfeature x of
        None \<Rightarrow> Inl (AttributeError ''currentfeature'')
      | Some (l, f) \<Rightarrow>
          let layer = xml_children (rootelement x) ! l;
              feature = xml_children layer ! f;
              attribute = Element ''attribute'' [] None
                            [Element ''name'' [] (Some name') [], Element ''value'' [] (Some value) []]
          in Inr (XMLFeatureInfo
                    (x\<lparr> rootelement :=
                           set_child (rootelement x) l
                             (set_child layer f (append_child feature attribute)) \<rparr>)))"

text \<open>
  \<^verbatim>\<open>__str__\<close>. \<^verbatim>\<open>ElementTree.tostring\<close> belongs to lxml and is a parameter.
\<close>

definition xml_declaration :: string where
  \<open>xml_declaration = ''<?xml version="1.0"?>'' @ newline\<close>

fun writer_str :: "(xml \<Rightarrow> string) \<Rightarrow> writer \<Rightarrow> string" where
  "writer_str tostring (TextFeatureInfo buffer) = buffer"
| "writer_str tostring (XMLFeatureInfo x) = xml_declaration @ tostring (rootelement x)"

text \<open>Lines 330 to 337 and 349 to 356: one feature and its properties.\<close>

definition write_feature :: "feature \<Rightarrow> writer \<Rightarrow> exn + writer" where
  "write_feature feat w =
     (case addfeature w of
        Inl e \<Rightarrow> Inl e
      | Inr w1 \<Rightarrow> for_each_local (\<lambda>prop w'. addattribute w' (fst prop) (snd prop)) feat w1)"

text \<open>
  Lines 328 to 337 and 347 to 356. The local \<^verbatim>\<open>writer\<close> is unbound (\<open>None\<close>) when
  \<^verbatim>\<open>info_format\<close> is neither of the two formats.
\<close>

definition write_features :: "string \<Rightarrow> feature list \<Rightarrow> writer option \<Rightarrow> exn + writer option" where
  "write_features layername features writer =
     (if features \<noteq> []
      then (case writer of
              None \<Rightarrow> Inl (UnboundLocalError ''writer'')
            | Some w \<Rightarrow>
                (case for_each_local write_feature features (addlayer w layername) of
                   Inl e \<Rightarrow> Inl e
                 | Inr w1 \<Rightarrow> Inr (Some w1)))
      else Inr writer)"

text \<open>
  The point query \<^verbatim>\<open>getattr(m, querymethodname)(layerindex, params['i'], params['j'])\<close>
  belongs to mapnik: \<open>query m layerindex i j\<close> is the list \<^verbatim>\<open>featureset.features\<close>.
\<close>

definition query_features ::
  "(wmap \<Rightarrow> nat \<Rightarrow> int \<Rightarrow> int \<Rightarrow> feature list) \<Rightarrow> params \<Rightarrow> wmap \<Rightarrow> nat \<Rightarrow> exn + feature list" where
  "query_features query params m layerindex =
     (case p_i params of
        None \<Rightarrow> Inl (KeyError ''i'')
      | Some i \<Rightarrow>
          (case p_j params of
             None \<Rightarrow> Inl (KeyError ''j'')
           | Some j \<Rightarrow> Inr (query m layerindex i j)))"

text \<open>Lines 325 to 337, the body of the loop over \<^verbatim>\<open>enumerate(m.layers)\<close>.\<close>

definition query_all_body ::
  "(wmap \<Rightarrow> nat \<Rightarrow> int \<Rightarrow> int \<Rightarrow> feature list) \<Rightarrow> params \<Rightarrow> wmap \<Rightarrow> nat \<times> layer
     \<Rightarrow> writer option \<Rightarrow> exn + writer option" where
  "query_all_body query params m item writer =
     (let (layerindex, layer) = item in
      case query_features query params m layerindex of
        Inl e \<Rightarrow> Inl e
      | Inr features \<Rightarrow> write_features (name layer) features writer)"

text \<open>Lines 339 to 360, the body of the loop over \<^verbatim>\<open>enumerate(params['query_layers'])\<close>.\<close>

definition query_named_body ::
  "(wmap \<Rightarrow> nat \<Rightarrow> int \<Rightarrow> int \<Rightarrow> feature list) \<Rightarrow> params \<Rightarrow> wmap \<Rightarrow> nat \<times> string
     \<Rightarrow> writer option \<Rightarrow> exn + writer option" where
  "query_named_body query params m item writer =
     (let (layerindex, layername) = item in
      case p_layers params of
        None \<Rightarrow> Inl (KeyError ''layers'')
      | Some ls \<Rightarrow>
          if layername \<in> set ls
          then if layerindex < length (m_layers m)
               then if queryable (m_layers m ! layerindex)
                    then (case query_features query params m layerindex of
                            Inl e \<Rightarrow> Inl e
                          | Inr features \<Rightarrow>
                              write_features (name (m_layers m ! layerindex)) features writer)
                    else Inl (OGCException (Not_queryable layername) (Some ''LayerNotQueryable''))
               else Inl IndexError
          else Inl (OGCException (Not_in_layers layername) None))"

record response =
  content_type :: string
  content :: string

text \<open>Lines 320 to 361, after \<^verbatim>\<open>_buildMap\<close> has returned the Map.\<close>

definition feature_info ::
  "(xml \<Rightarrow> string) \<Rightarrow> (wmap \<Rightarrow> nat \<Rightarrow> int \<Rightarrow> int \<Rightarrow> feature list) \<Rightarrow> params \<Rightarrow> wmap
     \<Rightarrow> exn + response" where
  "feature_info tostring query params m =
     (case p_info_format params of
        None \<Rightarrow> Inl (KeyError ''info_format'')
      | Some info_format \<Rightarrow>
          let writer = (if info_format = ''text/plain'' then Some new_TextFeatureInfo
                        else if info_format = ''text/xml'' then Some new_XMLFeatureInfo
                        else None)
          in (case p_query_layers params of
                None \<Rightarrow> Inl (KeyError ''query_layers'')
              | Some query_layers \<Rightarrow>
                  (case (if query_layers \<noteq> [] \<and> hd query_layers = ''__all__''
                         then for_each_local (query_all_body query params m)
                                (enumerate 0 (m_layers m)) writer
                         else for_each_local (query_named_body query params m)
                                (enumerate 0 query_layers) writer) of
                     Inl e \<Rightarrow> Inl e
                   | Inr None \<Rightarrow> Inl (UnboundLocalError ''writer'')
                   | Inr (Some w) \<Rightarrow>
                       Inr \<lparr> content_type = info_format, content = writer_str tostring w \<rparr>)))"

text \<open>\<^verbatim>\<open>GetFeatureInfo(self, params, querymethodname)\<close>.\<close>

definition GetFeatureInfo ::
  "(xml \<Rightarrow> string) \<Rightarrow> (wmap \<Rightarrow> nat \<Rightarrow> int \<Rightarrow> int \<Rightarrow> feature list) \<Rightarrow> handler \<Rightarrow> params \<Rightarrow> heap
     \<Rightarrow> heap \<times> (exn + response)" where
  "GetFeatureInfo tostring query self params h =
     (case buildMap self params h of
        (h', Inl e) \<Rightarrow> (h', Inl e)
      | (h', Inr m) \<Rightarrow> (h', feature_info tostring query params m))"

section \<open>An example catalog and request\<close>

text \<open>
  Two layers in the store, \<^verbatim>\<open>roads\<close> (queryable) and \<^verbatim>\<open>rivers\<close> (not queryable), a
  catalog that refers to them, and a request for both with their default styles.
\<close>

definition example_heap :: heap where
  "example_heap =
     [\<lparr> name = ''roads'', title = None, abstract = None, tolerance = None,
        toleranceunits = None, srs = ''+init=epsg:4326'', minzoom = 0, maxzoom = 1,
        active = True, queryable = True, clear_label_cache = False, datasource = Some 0,
        wmsdefaultstyle = Some ''roads_style'', wmsextrastyles = Some [''roads_night''],
        meta_style = None, wms_srs = None, styles = [] \<rparr>,
      \<lparr> name = ''rivers'', title = None, abstract = None, tolerance = None,
        toleranceunits = None, srs = ''+init=epsg:4326'', minzoom = 0, maxzoom = 1,
        active = True, queryable = False, clear_label_cache = False, datasource = Some 1,
        wmsdefaultstyle = Some ''rivers_style'', wmsextrastyles = Some [],
        meta_style = None, wms_srs = None, styles = [] \<rparr>]"

definition example_mapfactory :: mapfactory where
  "example_mapfactory =
     \<lparr> mf_bgcolor = None, mf_buffer_size = None, mf_ordered_layers = [0, 1],
       mf_layers = [''roads'' \<mapsto> 0, ''rivers'' \<mapsto> 1],
       mf_meta_layers = Map.empty,
       mf_styles = [''roads_style'' \<mapsto> Style 0, ''roads_night'' \<mapsto> Style 1,
                    ''rivers_style'' \<mapsto> Style 2],
       mf_meta_styles = Map.empty,
       mf_aggregatestyles = Map.empty \<rparr>"

definition example_handler :: handler where
  "example_handler = \<lparr> allowedepsgcodes = [''epsg:4326''], mapfactory = example_mapfactory \<rparr>"

definition example_params :: params where
  "example_params =
     \<lparr> p_crs = Some (CRS ''EPSG'' 4326), p_bbox = Some [0, 0, 10, 10],
       p_width = Some 256, p_height = Some 256, p_transparent = None, p_bgcolor = None,
       p_buffer_size = None, p_layers = Some [''roads'', ''rivers''],
       p_styles = Some [[], []], p_query_layers = Some [''rivers''],
       p_i = Some 1, p_j = Some 1, p_info_format = Some ''text/plain'' \<rparr>"

text \<open>A point query that finds one feature in the first layer of the Map and none elsewhere.\<close>

definition example_query :: "wmap \<Rightarrow> nat \<Rightarrow> int \<Rightarrow> int \<Rightarrow> feature list" where
  "example_query m layerindex i j = (if layerindex = 0 then [[(''name'', ''A1'')]] else [])"

text \<open>A point query that finds nothing.\<close>

definition no_features :: "wmap \<Rightarrow> nat \<Rightarrow> int \<Rightarrow> int \<Rightarrow> feature list" where
  "no_features m layerindex i j = []"

text \<open>A point query that finds a feature in every layer, except at the pixel (1, 1).\<close>

definition features_off_pixel :: "wmap \<Rightarrow> nat \<Rightarrow> int \<Rightarrow> int \<Rightarrow> feature list" where
  "features_off_pixel m layerindex i j = (if i = 1 \<and> j = 1 then [] else [[(''name'', ''A1'')]])"

text \<open>
  A serializer for the examples: start tag with the attributes, text, children, end tag,
  with no escaping of special characters.
\<close>

fun example_tostring :: "xml \<Rightarrow> string" where
  \<open>example_tostring (Element t a x cs) =
     ''<'' @ t @ concat (map (\<lambda>(k, v). '' '' @ k @ ''="'' @ v @ ''"'') a) @ ''>''
     @ (case x of None \<Rightarrow> [] | Some s \<Rightarrow> s)
     @ concat (map example_tostring cs)
     @ ''</'' @ t @ ''>''\<close>

text \<open>
  A later store extends an earlier one when every object of the earlier store is still
  there, unchanged, at its address.
\<close>

definition extends :: "heap \<Rightarrow> heap \<Rightarrow> bool" where
  "extends h h' \<longleftrightarrow> length h \<le> length h' \<and> take (length h) h' = h"

section \<open>String form and equality of CRS\<close>

lemma digits_distinct: "distinct ''0123456789''"
  by simp

lemma digit_char_inj: "a < 10 \<Longrightarrow> b < 10 \<Longrightarrow> digit_char a = digit_char b \<Longrightarrow> a = b"
  unfolding digit_char_def
  using digits_distinct nth_eq_iff_index_eq[of "''0123456789''" a b] by simp

lemma digit_char_set: "d < 10 \<Longrightarrow> digit_char d \<in> set ''0123456789''"
  unfolding digit_char_def by (rule nth_mem) simp

lemma show_nat_small: "n < 10 \<Longrightarrow> show_nat n = [digit_char n]"
  by (subst show_nat.simps) simp

lemma show_nat_big: "\<not> n < 10 \<Longrightarrow> show_nat n = show_nat (n div 10) @ [digit_char (n mod 10)]"
  by (subst show_nat.simps) simp

lemma show_nat_nonempty: "show_nat n \<noteq> []"
  by (subst show_nat.simps) simp

lemma show_nat_inj: "show_nat a = show_nat b \<Longrightarrow> a = b"
proof (induction a arbitrary: b rule: show_nat.induct)
  case (1 n)
  show ?case
  proof (cases "n < 10")
    case True
    show ?thesis
    proof (cases "b < 10")
      case b: True
      from "1.prems" True b have "digit_char n = digit_char b"
        by (simp add: show_nat_small)
      then show ?thesis using True b digit_char_inj by blast
    next
      case b: False
      from "1.prems" True b show ?thesis
        using show_nat_nonempty[of "b div 10"]
        by (simp add: show_nat_small show_nat_big)
    qed
  next
    case False
    show ?thesis
    proof (cases "b < 10")
      case b: True
      from "1.prems" False b show ?thesis
        using show_nat_nonempty[of "n div 10"]
        by (simp add: show_nat_small show_nat_big)
    next
      case b: False
      from "1.prems" False b
      have e: "show_nat (n div 10) = show_nat (b div 10)"
              "digit_char (n mod 10) = digit_char (b mod 10)"
        by (simp_all add: show_nat_big)
      from "1.IH"[OF False e(1)] have d: "n div 10 = b div 10" .
      from e(2) have m: "n mod 10 = b mod 10"
        using digit_char_inj[of "n mod 10" "b mod 10"] by simp
      have "n = 10 * (n div 10) + n mod 10" by simp
      also have "\<dots> = 10 * (b div 10) + b mod 10" using d m by simp
      also have "\<dots> = b" by simp
      finally show ?thesis .
    qed
  qed
qed

lemma show_nat_chars: "set (show_nat n) \<subseteq> set ''0123456789''"
proof (induction n rule: show_nat.induct)
  case (1 n)
  show ?case
  proof (cases "n < 10")
    case True
    then show ?thesis using digit_char_set[of n] by (simp add: show_nat_small)
  next
    case False
    then show ?thesis using 1 digit_char_set[of "n mod 10"] by (simp add: show_nat_big)
  qed
qed

lemma show_nat_no_minus: "CHR ''-'' \<notin> set (show_nat n)"
  using show_nat_chars[of n] by auto

lemma show_nat_no_colon: "CHR '':'' \<notin> set (show_nat n)"
  using show_nat_chars[of n] by auto

lemma show_int_inj: "show_int a = show_int b \<Longrightarrow> a = b"
proof -
  assume e: "show_int a = show_int b"
  have neq: "\<And>x y. ''-'' @ show_nat x \<noteq> show_nat y"
    using show_nat_no_minus by (metis append_Cons list.set_intros(1))
  show ?thesis
  proof (cases "a < 0")
    case True
    show ?thesis
    proof (cases "b < 0")
      case b: True
      with True e have "show_nat (nat (- a)) = show_nat (nat (- b))"
        by (simp add: show_int_def)
      from show_nat_inj[OF this] True b show ?thesis by simp
    next
      case b: False
      with True e neq[of "nat (- a)" "nat b"] show ?thesis by (simp add: show_int_def)
    qed
  next
    case False
    show ?thesis
    proof (cases "b < 0")
      case b: True
      with False e neq[of "nat (- b)" "nat a"] show ?thesis by (simp add: show_int_def)
    next
      case b: False
      with False e have "show_nat (nat a) = show_nat (nat b)" by (simp add: show_int_def)
      from show_nat_inj[OF this] False b show ?thesis by simp
    qed
  qed
qed

lemma show_int_no_colon: "CHR '':'' \<notin> set (show_int i)"
  using show_nat_no_colon by (simp add: show_int_def)

lemma split_last_colon:
  assumes "a @ '':'' @ s = b @ '':'' @ t" "CHR '':'' \<notin> set s" "CHR '':'' \<notin> set t"
  shows "a = b \<and> s = t"
proof -
  from assms(1) have "rev (a @ '':'' @ s) = rev (b @ '':'' @ t)" by simp
  hence r: "rev s @ CHR '':'' # rev a = rev t @ CHR '':'' # rev b" by simp
  have "takeWhile (\<lambda>c. c \<noteq> CHR '':'') (rev s @ CHR '':'' # rev a) = rev s"
    using assms(2) by (auto simp: takeWhile_tail)
  moreover have "takeWhile (\<lambda>c. c \<noteq> CHR '':'') (rev t @ CHR '':'' # rev b) = rev t"
    using assms(3) by (auto simp: takeWhile_tail)
  ultimately have st: "rev s = rev t" using r by simp
  with r have "rev a = rev b" by simp
  with st show ?thesis by simp
qed

lemma crs_repr_CRS: "crs_repr (CRS ns c) = lower ns @ '':'' @ show_int c"
  by (simp add: crs_repr_def CRS_def)

lemma crs_eq_CRS_iff: "crs_eq (CRS a c) (CRS b d) \<longleftrightarrow> lower a = lower b \<and> c = d"
proof
  assume "crs_eq (CRS a c) (CRS b d)"
  then have "lower b @ '':'' @ show_int d = lower a @ '':'' @ show_int c"
    by (simp add: crs_eq_def crs_repr_CRS)
  from split_last_colon[OF this show_int_no_colon show_int_no_colon]
  show "lower a = lower b \<and> c = d" using show_int_inj by auto
next
  assume "lower a = lower b \<and> c = d"
  then show "crs_eq (CRS a c) (CRS b d)" by (simp add: crs_eq_def crs_repr_CRS)
qed

text \<open>
  Claim C9. The string form of a CRS made from any namespace and integer code is the
  namespace in lower case, a colon and the decimal code, so that
  \<^verbatim>\<open>str(CRS("EPSG",4326)) == "epsg:4326"\<close>; \<^verbatim>\<open>CRS("EPSG",c) == CRS("epsg",c)\<close> for every
  code, and two CRS values are equal exactly when their codes are the same and their
  namespaces are the same up to the case of the letters.
\<close>

theorem CRS_string_form_and_equality:
  "crs_repr (CRS ns c) = lower ns @ '':'' @ show_int c
   \<and> crs_repr (CRS ''EPSG'' 4326) = ''epsg:4326''
   \<and> crs_eq (CRS ''EPSG'' c) (CRS ''epsg'' c)
   \<and> (crs_eq (CRS ns c) (CRS ns' c') \<longleftrightarrow> lower ns = lower ns' \<and> c = c')"
proof -
  have l: "lower ''EPSG'' = ''epsg''" "lower ''epsg'' = ''epsg''"
    by (simp_all add: lower_def lower_char_def)
  have s: "show_int 4326 = ''4326''"
    by (simp add: show_int_def show_nat.simps digit_char_def)
  have "crs_repr (CRS ''EPSG'' 4326) = ''epsg:4326''"
    by (simp add: crs_repr_CRS l s)
  moreover have "crs_eq (CRS ''EPSG'' c) (CRS ''epsg'' c)"
    by (simp add: crs_eq_CRS_iff l)
  ultimately show ?thesis
    using crs_repr_CRS crs_eq_CRS_iff by blast
qed

section \<open>Validation of request parameters\<close>

lemma for_each_append:
  "for_each f (xs @ ys) (s, a) =
     (case for_each f xs (s, a) of
        (s', Inl e) \<Rightarrow> (s', Inl e)
      | (s', Inr a') \<Rightarrow> for_each f ys (s', a'))"
  by (induction xs arbitrary: s a) (auto split: prod.splits sum.splits)

lemma process_param_cases:
  "process_param (p, d) (ps, fin) =
     (case ps p of
        None \<Rightarrow>
          if mandatory d then (ps, Inl (OGCException (Mandatory_missing p) None))
          else if truthy (default_value d) then (ps, Inr (fin(p \<mapsto> default_value d)))
          else (ps, Inr fin)
      | Some raw \<Rightarrow>
          (case cast d raw of
             Inl (OGCException msg c) \<Rightarrow> (ps, Inl (OGCException msg c))
           | Inl _ \<Rightarrow> (ps, Inl (OGCException (Invalid_value raw p) None))
           | Inr v \<Rightarrow>
               if has_allowedvalues d \<and> \<not> py_in v (the (allowedvalues d))
               then if \<not> fallback d
                    then (ps(p \<mapsto> v), Inl (OGCException (Illegal_value p) None))
                    else (ps(p \<mapsto> v), Inr (fin(p \<mapsto> default_value d)))
               else (ps(p \<mapsto> v), Inr (fin(p \<mapsto> v)))))"
  by (simp add: process_param_def Let_def split: option.splits sum.splits exn.splits)

lemma process_param_frame:
  assumes "process_param (p, d) (ps, fin) = (ps', r)"
  shows "(\<forall>k. k \<noteq> p \<longrightarrow> ps' k = ps k) \<and> (ps' p = None \<longleftrightarrow> ps p = None)"
  using assms
  by (auto simp: process_param_cases split: option.splits sum.splits exn.splits if_splits)

lemma process_param_final_frame:
  assumes "process_param (p, d) (ps, fin) = (ps', Inr fin')"
  shows "\<forall>k. k \<noteq> p \<longrightarrow> fin' k = fin k"
  using assms
  by (auto simp: process_param_cases split: option.splits sum.splits exn.splits if_splits)

lemma process_param_OGC:
  assumes "process_param (p, d) (ps, fin) = (ps', Inl e)"
  shows "\<exists>msg c. e = OGCException msg c"
  using assms
  by (auto simp: process_param_cases split: option.splits sum.splits exn.splits if_splits)

lemma process_param_dom:
  assumes "process_param (p, d) (ps, fin) = (ps', r)"
  shows "ps' k = None \<longleftrightarrow> ps k = None"
  using process_param_frame[OF assms] by (cases "k = p") auto

lemma loop_dom:
  "for_each process_param items (ps, fin) = (ps', r) \<Longrightarrow> ps' k = None \<longleftrightarrow> ps k = None"
proof (induction items arbitrary: ps fin)
  case Nil
  then show ?case by simp
next
  case (Cons it items)
  obtain p d where it: "it = (p, d)" by (cases it)
  obtain ps1 r1 where s: "process_param (p, d) (ps, fin) = (ps1, r1)"
    by (cases "process_param (p, d) (ps, fin)")
  note f = process_param_dom[OF s, of k]
  show ?case
  proof (cases r1)
    case (Inl e)
    with Cons.prems it s have "ps' = ps1" by simp
    with f show ?thesis by simp
  next
    case (Inr fin1)
    with Cons.prems it s have "for_each process_param items (ps1, fin1) = (ps', r)" by simp
    from Cons.IH[OF this] f show ?thesis by simp
  qed
qed

lemma loop_frame:
  "for_each process_param items (ps, fin) = (ps', r) \<Longrightarrow> k \<notin> fst ` set items \<Longrightarrow> ps' k = ps k"
proof (induction items arbitrary: ps fin)
  case Nil
  then show ?case by simp
next
  case (Cons it items)
  obtain p d where it: "it = (p, d)" by (cases it)
  obtain ps1 r1 where s: "process_param (p, d) (ps, fin) = (ps1, r1)"
    by (cases "process_param (p, d) (ps, fin)")
  from Cons.prems(2) it have k: "k \<noteq> p" "k \<notin> fst ` set items" by auto
  from process_param_frame[OF s] k have f: "ps1 k = ps k" by blast
  show ?case
  proof (cases r1)
    case (Inl e)
    with Cons.prems it s have "ps' = ps1" by simp
    with f show ?thesis by simp
  next
    case (Inr fin1)
    with Cons.prems it s have "for_each process_param items (ps1, fin1) = (ps', r)" by simp
    from Cons.IH[OF this k(2)] f show ?thesis by simp
  qed
qed

lemma loop_final_frame:
  "for_each process_param items (ps, fin) = (ps', Inr fin') \<Longrightarrow>
     \<forall>k. k \<notin> fst ` set items \<longrightarrow> fin' k = fin k"
proof (induction items arbitrary: ps fin)
  case Nil
  then show ?case by simp
next
  case (Cons it items)
  obtain p d where it: "it = (p, d)" by (cases it)
  obtain ps1 r1 where s: "process_param (p, d) (ps, fin) = (ps1, r1)" by (cases "process_param (p, d) (ps, fin)")
  show ?case
  proof (cases r1)
    case (Inl e)
    with Cons.prems it s show ?thesis by simp
  next
    case (Inr fin1)
    with Cons.prems it s have l: "for_each process_param items (ps1, fin1) = (ps', Inr fin')" by simp
    from process_param_final_frame s Inr have "\<forall>k. k \<noteq> p \<longrightarrow> fin1 k = fin k" by blast
    with Cons.IH[OF l] show ?thesis by (auto simp: it)
  qed
qed

lemma loop_OGC:
  "for_each process_param items (ps, fin) = (ps', Inl e) \<Longrightarrow> \<exists>msg c. e = OGCException msg c"
proof (induction items arbitrary: ps fin)
  case Nil
  then show ?case by simp
next
  case (Cons it items)
  obtain p d where it: "it = (p, d)" by (cases it)
  obtain ps1 r1 where s: "process_param (p, d) (ps, fin) = (ps1, r1)" by (cases "process_param (p, d) (ps, fin)")
  show ?case
  proof (cases r1)
    case (Inl e1)
    with Cons.prems it s have "e = e1" by simp
    with process_param_OGC s Inl show ?thesis by blast
  next
    case (Inr fin1)
    with Cons.prems it s have "for_each process_param items (ps1, fin1) = (ps', Inl e)" by simp
    from Cons.IH[OF this] show ?thesis .
  qed
qed

text \<open>Whether the body raises for an item depends on the dictionary only at the item's key.\<close>

lemma process_param_ok_indep:
  assumes "process_param (p, d) (ps0, fin0) = (x, Inr y)" "ps p = ps0 p"
  shows "\<exists>x' y'. process_param (p, d) (ps, fin) = (x', Inr y')"
  using assms
  by (auto simp: process_param_cases split: option.splits sum.splits exn.splits if_splits)

lemma loop_ok:
  assumes "distinct (map fst items)"
    and "\<forall>it\<in>set items. ps (fst it) = ps0 (fst it) \<and> (\<exists>x y. process_param it (ps0, Map.empty) = (x, Inr y))"
  shows "\<exists>ps' fin'. for_each process_param items (ps, fin) = (ps', Inr fin')"
  using assms
proof (induction items arbitrary: ps fin)
  case Nil
  then show ?case by simp
next
  case (Cons it items)
  obtain p d where it: "it = (p, d)" by (cases it)
  from Cons.prems(2) it obtain x y where ok: "process_param (p, d) (ps0, Map.empty) = (x, Inr y)" "ps p = ps0 p"
    by auto
  from process_param_ok_indep[of p d ps0 Map.empty x y ps fin] ok obtain ps1 fin1 where
    s: "process_param (p, d) (ps, fin) = (ps1, Inr fin1)" by blast
  from process_param_frame[OF s] have fr: "\<forall>k. k \<noteq> p \<longrightarrow> ps1 k = ps k" by blast
  from Cons.prems(1) it have d: "distinct (map fst items)" "p \<notin> fst ` set items" by auto
  have "\<forall>it\<in>set items. ps1 (fst it) = ps0 (fst it) \<and> (\<exists>x y. process_param it (ps0, Map.empty) = (x, Inr y))"
  proof
    fix j assume j: "j \<in> set items"
    with d(2) have "fst j \<noteq> p" by auto
    with fr Cons.prems(2) j show "ps1 (fst j) = ps0 (fst j) \<and> (\<exists>x y. process_param j (ps0, Map.empty) = (x, Inr y))"
      by auto
  qed
  from Cons.IH[OF d(1) this, of fin1] s it show ?case by simp
qed

lemmas example_eval = processParameters_def process_param_def int_cast_def str_cast_def
  has_allowedvalues_def py_in_def digit_value_def Let_def

lemma illegal_value_step:
  assumes "ps p = Some raw" "cast d raw = Inr v" "allowedvalues d = Some t" "t \<noteq> []" "\<not> py_in v t"
  shows "process_param (p, d) (ps, fin) =
           (ps(p \<mapsto> v), if fallback d then Inr (fin(p \<mapsto> default_value d))
                          else Inl (OGCException (Illegal_value p) None))"
  using assms by (simp add: process_param_cases has_allowedvalues_def)

lemma process_param_cast:
  assumes "process_param (p, d) (ps, fin) = (ps', Inr fin')" "ps p = Some raw"
  shows "\<exists>v. cast d raw = Inr v \<and> ps' p = Some v"
  using assms
  by (auto simp: process_param_cases split: option.splits sum.splits exn.splits if_splits)

text \<open>
  Claim C1, for a tuple of allowed values that is not empty. The schema is a
  dictionary, so its keys are distinct. A present value that casts to \<open>v\<close>, with \<open>v\<close> not
  in the tuple: with \<^verbatim>\<open>fallback\<close> true, every result the call returns maps the parameter
  to the declared default, and the call does return when no other parameter of the
  schema raises; with \<^verbatim>\<open>fallback\<close> false the call always raises an OGCException, and
  raises the one for the illegal value when no parameter iterated before it raises.
\<close>

theorem allowedvalues_fallback_or_fail:
  assumes sp: "SERVICE_PARAMS requestname = Some items"
    and dist: "distinct (map fst items)"
    and mem: "(p, d) \<in> set items"
    and raw: "params p = Some raw"
    and cst: "cast d raw = Inr v"
    and av: "allowedvalues d = Some t" "t \<noteq> []"
    and ill: "\<not> py_in v t"
  shows "(fallback d \<longrightarrow>
            (\<forall>ps' fin. processParameters SERVICE_PARAMS requestname params = (ps', Inr fin)
                 \<longrightarrow> fin p = Some (default_value d))
          \<and> ((\<forall>it\<in>set items. fst it \<noteq> p \<longrightarrow>
                 (\<exists>x y. process_param it (params, Map.empty) = (x, Inr y)))
               \<longrightarrow> (\<exists>ps' fin. processParameters SERVICE_PARAMS requestname params = (ps', Inr fin))))
       \<and> (\<not> fallback d \<longrightarrow>
            (\<exists>ps' msg c. processParameters SERVICE_PARAMS requestname params
                 = (ps', Inl (OGCException msg c)))
          \<and> (\<forall>pre post ps1 fin1.
                 items = pre @ (p, d) # post
                 \<and> for_each process_param pre (params, Map.empty) = (ps1, Inr fin1)
                 \<longrightarrow> processParameters SERVICE_PARAMS requestname params
                       = (ps1(p \<mapsto> v), Inl (OGCException (Illegal_value p) None))))"
proof -
  have pp: "processParameters SERVICE_PARAMS requestname params
              = for_each process_param items (params, Map.empty)"
    by (simp add: processParameters_def sp)
  have at: "for_each process_param items (params, Map.empty)
              = (case process_param (p, d) (ps1, fin1) of
                   (s', Inl e) \<Rightarrow> (s', Inl e)
                 | (s', Inr a') \<Rightarrow> for_each process_param post (s', a'))
            \<and> ps1 p = Some raw \<and> p \<notin> fst ` set post"
    if "items = pre @ (p, d) # post" "for_each process_param pre (params, Map.empty) = (ps1, Inr fin1)"
    for pre post ps1 fin1
  proof -
    from dist that(1) have n: "p \<notin> fst ` set pre" "p \<notin> fst ` set post" by auto
    from loop_frame[OF that(2) n(1)] raw have "ps1 p = Some raw" by simp
    with that n show ?thesis by (simp add: for_each_append)
  qed
  from mem obtain pre post where dec: "items = pre @ (p, d) # post"
    by (auto dest: split_list)
  obtain ps1 r1 where pre: "for_each process_param pre (params, Map.empty) = (ps1, r1)"
    by (cases "for_each process_param pre (params, Map.empty)")
  show ?thesis
  proof (cases "fallback d")
    case True
    have a: "fin p = Some (default_value d)"
      if res: "processParameters SERVICE_PARAMS requestname params = (ps', Inr fin)" for ps' fin
    proof (cases r1)
      case (Inl e)
      with res pp dec pre show ?thesis by (simp add: for_each_append)
    next
      case (Inr fin1)
      with pre have pre': "for_each process_param pre (params, Map.empty) = (ps1, Inr fin1)" by simp
      from at[OF dec pre'] have
        e: "for_each process_param items (params, Map.empty)
              = (case process_param (p, d) (ps1, fin1) of
                   (s', Inl e) \<Rightarrow> (s', Inl e)
                 | (s', Inr a') \<Rightarrow> for_each process_param post (s', a'))"
        and r: "ps1 p = Some raw" and n: "p \<notin> fst ` set post" by auto
      from illegal_value_step[of ps1 p raw d v t fin1] r cst av ill True
      have "process_param (p, d) (ps1, fin1) = (ps1(p \<mapsto> v), Inr (fin1(p \<mapsto> default_value d)))"
        by simp
      with e res pp
      have "for_each process_param post (ps1(p \<mapsto> v), fin1(p \<mapsto> default_value d)) = (ps', Inr fin)"
        by simp
      from loop_final_frame[OF this] n show ?thesis by simp
    qed
    have b: "\<exists>ps' fin. processParameters SERVICE_PARAMS requestname params = (ps', Inr fin)"
      if oth: "\<forall>it\<in>set items. fst it \<noteq> p \<longrightarrow>
                 (\<exists>x y. process_param it (params, Map.empty) = (x, Inr y))"
    proof -
      have "\<forall>it\<in>set items. params (fst it) = params (fst it)
              \<and> (\<exists>x y. process_param it (params, Map.empty) = (x, Inr y))"
      proof
        fix it assume i: "it \<in> set items"
        show "params (fst it) = params (fst it)
              \<and> (\<exists>x y. process_param it (params, Map.empty) = (x, Inr y))"
        proof (cases "fst it = p")
          case False
          with oth i show ?thesis by simp
        next
          case same: True
          with i mem dist have "it = (p, d)"
            by (metis eq_key_imp_eq_value prod.collapse)
          with illegal_value_step[of params p raw d v t Map.empty] raw cst av ill True show ?thesis by simp
        qed
      qed
      from loop_ok[OF dist this, of Map.empty] pp show ?thesis by simp
    qed
    from a b True show ?thesis by blast
  next
    case False
    have c: "processParameters SERVICE_PARAMS requestname params
               = (ps1(p \<mapsto> v), Inl (OGCException (Illegal_value p) None))"
      if "items = pre @ (p, d) # post"
         "for_each process_param pre (params, Map.empty) = (ps1, Inr fin1)"
      for pre post ps1 fin1
    proof -
      from at[OF that] have
        e: "for_each process_param items (params, Map.empty)
              = (case process_param (p, d) (ps1, fin1) of
                   (s', Inl e) \<Rightarrow> (s', Inl e)
                 | (s', Inr a') \<Rightarrow> for_each process_param post (s', a'))"
        and r: "ps1 p = Some raw" by auto
      from illegal_value_step[of ps1 p raw d v t fin1] r cst av ill False e pp show ?thesis by simp
    qed
    have "\<exists>ps' msg c. processParameters SERVICE_PARAMS requestname params
                 = (ps', Inl (OGCException msg c))"
    proof (cases r1)
      case (Inl e)
      with loop_OGC pre obtain msg c where "e = OGCException msg c" by blast
      with Inl pre dec pp show ?thesis by (simp add: for_each_append)
    next
      case (Inr fin1)
      with pre c[OF dec] show ?thesis by blast
    qed
    with c False show ?thesis by blast
  qed
qed

lemma example_items:
  "example_SERVICE_PARAMS ''GetMap'' = Some (the (example_SERVICE_PARAMS ''GetMap''))"
  "distinct (map fst (the (example_SERVICE_PARAMS ''GetMap'')))"
  by (simp_all add: example_SERVICE_PARAMS_def)

text \<open>
  The theorem at the example schema: \<^verbatim>\<open>exceptions=bogus\<close> falls back to the default,
  \<^verbatim>\<open>format=image/gif\<close> is refused.
\<close>

theorem allowedvalues_fallback_or_fail_witness:
  "processParameters example_SERVICE_PARAMS ''GetMap''
      [''width'' \<mapsto> PStr ''256'', ''format'' \<mapsto> PStr ''image/png'', ''exceptions'' \<mapsto> PStr ''bogus'']
      = ([''width'' \<mapsto> PInt 256, ''format'' \<mapsto> PStr ''image/png'', ''exceptions'' \<mapsto> PStr ''bogus''],
         Inr [''width'' \<mapsto> PInt 256, ''format'' \<mapsto> PStr ''image/png'',
              ''exceptions'' \<mapsto> PStr ''application/vnd.ogc.se_xml''])
   \<and> processParameters example_SERVICE_PARAMS ''GetMap''
      [''width'' \<mapsto> PStr ''256'', ''format'' \<mapsto> PStr ''image/gif'']
      = ([''width'' \<mapsto> PInt 256, ''format'' \<mapsto> PStr ''image/gif''],
         Inl (OGCException (Illegal_value ''format'') None))"
proof -
  let ?exc = "\<lparr> mandatory = False, cast = str_cast,
                 default_value = PStr ''application/vnd.ogc.se_xml'',
                 allowedvalues = Some [PStr ''application/vnd.ogc.se_xml'', PStr ''text/html''],
                 fallback = True \<rparr>"
  let ?fmt = "\<lparr> mandatory = True, cast = str_cast, default_value = PNone,
                 allowedvalues = Some [PStr ''image/png'', PStr ''image/jpeg''],
                 fallback = False \<rparr>"
  let ?p1 = "[''width'' \<mapsto> PStr ''256'', ''format'' \<mapsto> PStr ''image/png'', ''exceptions'' \<mapsto> PStr ''bogus'']"
  let ?p2 = "[''width'' \<mapsto> PStr ''256'', ''format'' \<mapsto> PStr ''image/gif'']"
  have 1: "fallback ?exc \<longrightarrow>
            (\<forall>ps' fin. processParameters example_SERVICE_PARAMS ''GetMap'' ?p1 = (ps', Inr fin)
                 \<longrightarrow> fin ''exceptions'' = Some (default_value ?exc))"
    using allowedvalues_fallback_or_fail
      [of example_SERVICE_PARAMS "''GetMap''" "the (example_SERVICE_PARAMS ''GetMap'')"
          "''exceptions''" ?exc ?p1 "PStr ''bogus''" "PStr ''bogus''"
          "[PStr ''application/vnd.ogc.se_xml'', PStr ''text/html'']"]
    by (simp add: example_SERVICE_PARAMS_def str_cast_def py_in_def)
  have 2: "\<not> fallback ?fmt \<longrightarrow>
            (\<exists>ps' msg c. processParameters example_SERVICE_PARAMS ''GetMap'' ?p2
                 = (ps', Inl (OGCException msg c)))"
    using allowedvalues_fallback_or_fail
      [of example_SERVICE_PARAMS "''GetMap''" "the (example_SERVICE_PARAMS ''GetMap'')"
          "''format''" ?fmt ?p2 "PStr ''image/gif''" "PStr ''image/gif''"
          "[PStr ''image/png'', PStr ''image/jpeg'']"]
    by (simp add: example_SERVICE_PARAMS_def str_cast_def py_in_def)
  have e1: "processParameters example_SERVICE_PARAMS ''GetMap'' ?p1
      = ([''width'' \<mapsto> PInt 256, ''format'' \<mapsto> PStr ''image/png'', ''exceptions'' \<mapsto> PStr ''bogus''],
         Inr [''width'' \<mapsto> PInt 256, ''format'' \<mapsto> PStr ''image/png'',
              ''exceptions'' \<mapsto> PStr ''application/vnd.ogc.se_xml''])"
    by (simp add: example_eval example_SERVICE_PARAMS_def fun_upd_twist)
  have e2: "processParameters example_SERVICE_PARAMS ''GetMap'' ?p2
      = ([''width'' \<mapsto> PInt 256, ''format'' \<mapsto> PStr ''image/gif''],
         Inl (OGCException (Illegal_value ''format'') None))"
    by (simp add: example_eval example_SERVICE_PARAMS_def fun_upd_twist)
  from 1 2 e1 e2 show ?thesis by simp
qed

text \<open>
  Claim C1 as stated fails for a declared tuple that is empty: line 111 tests the truth
  value of \<^verbatim>\<open>paramdef.allowedvalues\<close> first, so no value is checked against \<^verbatim>\<open>()\<close>. Both
  values below are outside the (empty) tuple; the one with \<^verbatim>\<open>fallback=False\<close> is
  accepted and the one with \<^verbatim>\<open>fallback=True\<close> is kept instead of the default.
\<close>

theorem allowedvalues_empty_tuple_counterexample:
  "processParameters empty_tuple_SERVICE_PARAMS ''GetMap''
      [''format'' \<mapsto> PStr ''image/gif'', ''exceptions'' \<mapsto> PStr ''bogus'']
      = ([''format'' \<mapsto> PStr ''image/gif'', ''exceptions'' \<mapsto> PStr ''bogus''],
         Inr [''format'' \<mapsto> PStr ''image/gif'', ''exceptions'' \<mapsto> PStr ''bogus''])
   \<and> \<not> py_in (PStr ''image/gif'') [] \<and> \<not> py_in (PStr ''bogus'') []"
  by (simp add: example_eval empty_tuple_SERVICE_PARAMS_def)

lemma missing_step:
  assumes "ps p = None" "mandatory d"
  shows "process_param (p, d) (ps, fin) = (ps, Inl (OGCException (Mandatory_missing p) None))"
  using assms by (simp add: process_param_cases)

text \<open>
  Claim C2, as the code has it. When a key that the schema declares mandatory is absent
  from the input, the call always raises an OGCException; it is the one for the missing
  parameter whenever the items iterated before that key raise nothing.
\<close>

theorem missing_mandatory_fails:
  assumes sp: "SERVICE_PARAMS requestname = Some items"
    and mem: "(p, d) \<in> set items"
    and man: "mandatory d"
    and abs: "params p = None"
  shows "(\<exists>ps' msg c. processParameters SERVICE_PARAMS requestname params
             = (ps', Inl (OGCException msg c)))
       \<and> (\<forall>pre post ps1 fin1.
             items = pre @ (p, d) # post
             \<and> for_each process_param pre (params, Map.empty) = (ps1, Inr fin1)
             \<longrightarrow> processParameters SERVICE_PARAMS requestname params
                   = (ps1, Inl (OGCException (Mandatory_missing p) None)))"
proof -
  have pp: "processParameters SERVICE_PARAMS requestname params
              = for_each process_param items (params, Map.empty)"
    by (simp add: processParameters_def sp)
  have c: "processParameters SERVICE_PARAMS requestname params
             = (ps1, Inl (OGCException (Mandatory_missing p) None))"
    if dec: "items = pre @ (p, d) # post"
      and pre: "for_each process_param pre (params, Map.empty) = (ps1, Inr fin1)"
    for pre post ps1 fin1
  proof -
    from loop_dom[OF pre, of p] abs have "ps1 p = None" by simp
    from missing_step[of ps1 p d fin1] this man
    have "process_param (p, d) (ps1, fin1) = (ps1, Inl (OGCException (Mandatory_missing p) None))"
      by simp
    with pp dec pre show ?thesis by (simp add: for_each_append)
  qed
  from mem obtain pre post where dec: "items = pre @ (p, d) # post"
    by (auto dest: split_list)
  obtain ps1 r1 where pre: "for_each process_param pre (params, Map.empty) = (ps1, r1)"
    by (cases "for_each process_param pre (params, Map.empty)")
  have "\<exists>ps' msg c. processParameters SERVICE_PARAMS requestname params
             = (ps', Inl (OGCException msg c))"
  proof (cases r1)
    case (Inl e)
    with loop_OGC pre obtain msg c where "e = OGCException msg c" by blast
    with Inl pre dec pp show ?thesis by (simp add: for_each_append)
  next
    case (Inr fin1)
    with pre c[OF dec] show ?thesis by blast
  qed
  with c show ?thesis by blast
qed

text \<open>
  The theorem at the example schema, for a request that gives \<^verbatim>\<open>width\<close> only.
\<close>

theorem missing_mandatory_fails_witness:
  "processParameters example_SERVICE_PARAMS ''GetMap'' [''width'' \<mapsto> PStr ''256'']
     = ([''width'' \<mapsto> PInt 256], Inl (OGCException (Mandatory_missing ''format'') None))"
proof -
  let ?w = "\<lparr> mandatory = True, cast = int_cast, default_value = PNone,
               allowedvalues = None, fallback = False \<rparr>"
  let ?fmt = "\<lparr> mandatory = True, cast = str_cast, default_value = PNone,
                 allowedvalues = Some [PStr ''image/png'', PStr ''image/jpeg''],
                 fallback = False \<rparr>"
  let ?exc = "\<lparr> mandatory = False, cast = str_cast,
                 default_value = PStr ''application/vnd.ogc.se_xml'',
                 allowedvalues = Some [PStr ''application/vnd.ogc.se_xml'', PStr ''text/html''],
                 fallback = True \<rparr>"
  have pre: "for_each process_param [(''width'', ?w)] ([''width'' \<mapsto> PStr ''256''], Map.empty)
               = ([''width'' \<mapsto> PInt 256], Inr [''width'' \<mapsto> PInt 256])"
    by (simp add: example_eval)
  have "\<forall>pre post ps1 fin1.
          the (example_SERVICE_PARAMS ''GetMap'') = pre @ (''format'', ?fmt) # post
          \<and> for_each process_param pre ([''width'' \<mapsto> PStr ''256''], Map.empty) = (ps1, Inr fin1)
          \<longrightarrow> processParameters example_SERVICE_PARAMS ''GetMap'' [''width'' \<mapsto> PStr ''256'']
                = (ps1, Inl (OGCException (Mandatory_missing ''format'') None))"
    using missing_mandatory_fails
      [of example_SERVICE_PARAMS "''GetMap''" "the (example_SERVICE_PARAMS ''GetMap'')"
          "''format''" ?fmt "[''width'' \<mapsto> PStr ''256'']"]
    by (simp add: example_SERVICE_PARAMS_def)
  then have "the (example_SERVICE_PARAMS ''GetMap'') = [(''width'', ?w)] @ (''format'', ?fmt) # [(''exceptions'', ?exc)]
          \<and> for_each process_param [(''width'', ?w)] ([''width'' \<mapsto> PStr ''256''], Map.empty)
               = ([''width'' \<mapsto> PInt 256], Inr [''width'' \<mapsto> PInt 256])
          \<longrightarrow> processParameters example_SERVICE_PARAMS ''GetMap'' [''width'' \<mapsto> PStr ''256'']
                = ([''width'' \<mapsto> PInt 256], Inl (OGCException (Mandatory_missing ''format'') None))"
    by blast
  with pre show ?thesis by (simp add: example_SERVICE_PARAMS_def)
qed

text \<open>
  Claim C2 as stated fails when an item iterated before the missing key raises: with
  \<^verbatim>\<open>width=abc\<close> and no \<^verbatim>\<open>format\<close>, the exception is the one for the invalid value of
  \<^verbatim>\<open>width\<close>. Were the items iterated in the opposite order, \<^verbatim>\<open>format=image/gif\<close> and no
  \<^verbatim>\<open>width\<close> would raise the exception for the illegal value of \<^verbatim>\<open>format\<close>: whichever
  order the dictionary yields, some request that lacks a mandatory key raises another
  exception.
\<close>

theorem missing_mandatory_other_error_counterexample:
  "mandatory (the (map_of (the (example_SERVICE_PARAMS ''GetMap'')) ''format''))
   \<and> [''width'' \<mapsto> PStr ''abc''] ''format'' = None
   \<and> processParameters example_SERVICE_PARAMS ''GetMap'' [''width'' \<mapsto> PStr ''abc'']
       = ([''width'' \<mapsto> PStr ''abc''],
          Inl (OGCException (Invalid_value (PStr ''abc'') ''width'') None))
   \<and> mandatory (the (map_of (the (example_SERVICE_PARAMS ''GetMap'')) ''width''))
   \<and> [''format'' \<mapsto> PStr ''image/gif''] ''width'' = None
   \<and> processParameters
         (example_SERVICE_PARAMS(''GetMap'' \<mapsto> rev (the (example_SERVICE_PARAMS ''GetMap''))))
         ''GetMap'' [''format'' \<mapsto> PStr ''image/gif'']
       = ([''format'' \<mapsto> PStr ''image/gif''],
          Inl (OGCException (Illegal_value ''format'') None))"
  by (simp add: example_eval example_SERVICE_PARAMS_def)

text \<open>
  Claim C6, as the code has it. The call is a function of the schema and the input, and
  its only effect is on the caller's dictionary: keys that the schema does not declare
  keep their values, no key is added or removed, and when the call returns, every
  declared key that was present holds its cast value.
\<close>

theorem processParameters_effect_on_params:
  assumes sp: "SERVICE_PARAMS requestname = Some items"
    and dist: "distinct (map fst items)"
    and res: "processParameters SERVICE_PARAMS requestname params = (params', r)"
  shows "(\<forall>k. k \<notin> fst ` set items \<longrightarrow> params' k = params k)
       \<and> (\<forall>k. params' k = None \<longleftrightarrow> params k = None)
       \<and> (\<forall>fin. r = Inr fin \<longrightarrow>
            (\<forall>k d raw. (k, d) \<in> set items \<and> params k = Some raw
                \<longrightarrow> (\<exists>v. cast d raw = Inr v \<and> params' k = Some v)))"
proof -
  from res sp have loop: "for_each process_param items (params, Map.empty) = (params', r)"
    by (simp add: processParameters_def)
  have a: "\<forall>k. k \<notin> fst ` set items \<longrightarrow> params' k = params k"
    using loop_frame[OF loop] by blast
  have b: "\<forall>k. params' k = None \<longleftrightarrow> params k = None"
    using loop_dom[OF loop] by blast
  have c: "\<exists>v. cast d raw = Inr v \<and> params' k = Some v"
    if r: "r = Inr fin" and mem: "(k, d) \<in> set items" and raw: "params k = Some raw"
    for fin k d raw
  proof -
    from mem obtain pre post where dec: "items = pre @ (k, d) # post"
      by (auto dest: split_list)
    with dist have n: "k \<notin> fst ` set pre" "k \<notin> fst ` set post" by auto
    obtain ps1 r1 where pre: "for_each process_param pre (params, Map.empty) = (ps1, r1)"
      by (cases "for_each process_param pre (params, Map.empty)")
    from loop r dec pre obtain fin1 where r1: "r1 = Inr fin1"
      by (cases r1) (auto simp: for_each_append)
    obtain ps2 r2 where st: "process_param (k, d) (ps1, fin1) = (ps2, r2)"
      by (cases "process_param (k, d) (ps1, fin1)")
    from loop r dec pre r1 st obtain fin2 where r2: "r2 = Inr fin2"
      by (cases r2) (auto simp: for_each_append)
    from loop r dec pre r1 st r2
    have post: "for_each process_param post (ps2, fin2) = (params', Inr fin)"
      by (simp add: for_each_append)
    from loop_frame[OF pre n(1)] raw have "ps1 k = Some raw" by simp
    from process_param_cast[of k d ps1 fin1 ps2 fin2 raw] st r2 this
    obtain v where "cast d raw = Inr v" "ps2 k = Some v" by auto
    with loop_frame[OF post n(2)] show ?thesis by simp
  qed
  from a b c show ?thesis by blast
qed

text \<open>
  The theorem at the example schema: the undeclared key \<^verbatim>\<open>bogus\<close> is untouched and
  \<^verbatim>\<open>width\<close> holds the integer.
\<close>

theorem processParameters_effect_on_params_witness:
  "fst (processParameters example_SERVICE_PARAMS ''GetMap''
          [''width'' \<mapsto> PStr ''256'', ''format'' \<mapsto> PStr ''image/png'', ''bogus'' \<mapsto> PStr ''1'']) ''bogus''
     = Some (PStr ''1'')
   \<and> fst (processParameters example_SERVICE_PARAMS ''GetMap''
          [''width'' \<mapsto> PStr ''256'', ''format'' \<mapsto> PStr ''image/png'', ''bogus'' \<mapsto> PStr ''1'']) ''width''
     = Some (PInt 256)"
proof -
  let ?ps = "[''width'' \<mapsto> PStr ''256'', ''format'' \<mapsto> PStr ''image/png'', ''bogus'' \<mapsto> PStr ''1'']"
  let ?w = "\<lparr> mandatory = True, cast = int_cast, default_value = PNone,
               allowedvalues = None, fallback = False \<rparr>"
  have r: "\<exists>fin. snd (processParameters example_SERVICE_PARAMS ''GetMap'' ?ps) = Inr fin"
    by (simp add: example_eval example_SERVICE_PARAMS_def)
  have c: "int_cast (PStr ''256'') = Inr (PInt 256)"
    by (simp add: int_cast_def digit_value_def)
  have t: "(\<forall>k. k \<notin> fst ` set (the (example_SERVICE_PARAMS ''GetMap''))
              \<longrightarrow> fst (processParameters example_SERVICE_PARAMS ''GetMap'' ?ps) k = ?ps k)
       \<and> (\<forall>fin. snd (processParameters example_SERVICE_PARAMS ''GetMap'' ?ps) = Inr fin \<longrightarrow>
            (\<forall>k d raw. (k, d) \<in> set (the (example_SERVICE_PARAMS ''GetMap'')) \<and> ?ps k = Some raw
                \<longrightarrow> (\<exists>v. cast d raw = Inr v
                      \<and> fst (processParameters example_SERVICE_PARAMS ''GetMap'' ?ps) k = Some v)))"
    using processParameters_effect_on_params
      [of example_SERVICE_PARAMS "''GetMap''" "the (example_SERVICE_PARAMS ''GetMap'')" ?ps
          "fst (processParameters example_SERVICE_PARAMS ''GetMap'' ?ps)"
          "snd (processParameters example_SERVICE_PARAMS ''GetMap'' ?ps)"]
    by (simp add: example_SERVICE_PARAMS_def)
  from t have 1: "fst (processParameters example_SERVICE_PARAMS ''GetMap'' ?ps) ''bogus'' = ?ps ''bogus''"
    by (simp add: example_SERVICE_PARAMS_def)
  have m: "(''width'', ?w) \<in> set (the (example_SERVICE_PARAMS ''GetMap''))" "?ps ''width'' = Some (PStr ''256'')"
    by (simp_all add: example_SERVICE_PARAMS_def)
  from r obtain fin where "snd (processParameters example_SERVICE_PARAMS ''GetMap'' ?ps) = Inr fin" ..
  with t m have "\<exists>v. cast ?w (PStr ''256'') = Inr v
      \<and> fst (processParameters example_SERVICE_PARAMS ''GetMap'' ?ps) ''width'' = Some v"
    by blast
  with c have 2: "fst (processParameters example_SERVICE_PARAMS ''GetMap'' ?ps) ''width'' = Some (PInt 256)"
    by simp
  from 1 2 show ?thesis by simp
qed

text \<open>
  Claim C6 as stated fails: line 106 assigns the cast value to the caller's dictionary,
  which differs from the one passed in after the call.
\<close>

theorem processParameters_mutates_params_counterexample:
  "fst (processParameters example_SERVICE_PARAMS ''GetMap''
          [''width'' \<mapsto> PStr ''256'', ''format'' \<mapsto> PStr ''image/png'']) ''width'' = Some (PInt 256)
   \<and> [''width'' \<mapsto> PStr ''256'', ''format'' \<mapsto> PStr ''image/png''] ''width'' = Some (PStr ''256'')
   \<and> fst (processParameters example_SERVICE_PARAMS ''GetMap''
          [''width'' \<mapsto> PStr ''256'', ''format'' \<mapsto> PStr ''image/png''])
       \<noteq> [''width'' \<mapsto> PStr ''256'', ''format'' \<mapsto> PStr ''image/png'']"
proof -
  let ?ps = "[''width'' \<mapsto> PStr ''256'', ''format'' \<mapsto> PStr ''image/png'']"
  have e: "fst (processParameters example_SERVICE_PARAMS ''GetMap'' ?ps) ''width'' = Some (PInt 256)"
    by (simp add: example_eval example_SERVICE_PARAMS_def)
  have o: "?ps ''width'' = Some (PStr ''256'')" by simp
  from e o have "fst (processParameters example_SERVICE_PARAMS ''GetMap'' ?ps) \<noteq> ?ps"
    by auto
  with e o show ?thesis by blast
qed

section \<open>Map building\<close>

lemma extends_refl: "extends h h"
  by (simp add: extends_def)

lemma extends_trans: "extends h h1 \<Longrightarrow> extends h1 h2 \<Longrightarrow> extends h h2"
proof -
  assume a: "extends h h1" "extends h1 h2"
  then have l: "length h \<le> length h1" "length h1 \<le> length h2" by (simp_all add: extends_def)
  from a have "take (length h) h2 = take (length h) (take (length h1) h2)"
    using l by (simp add: min_def)
  also from a have "\<dots> = h" by (simp add: extends_def)
  finally show ?thesis using l by (simp add: extends_def)
qed

lemma extends_nth: "extends h h' \<Longrightarrow> a < length h \<Longrightarrow> h' ! a = h ! a"
  by (metis extends_def nth_take)

lemma for_each_state_rel:
  assumes step: "\<And>x s a s' r. f x (s, a) = (s', r) \<Longrightarrow> R s s'"
    and refl: "\<And>s. R s s"
    and trans: "\<And>s t u. R s t \<Longrightarrow> R t u \<Longrightarrow> R s u"
  shows "for_each f xs (s, a) = (s', r) \<Longrightarrow> R s s'"
proof (induction xs arbitrary: s a)
  case Nil
  then show ?case using refl by simp
next
  case (Cons x xs)
  obtain s1 r1 where b: "f x (s, a) = (s1, r1)" by (cases "f x (s, a)")
  show ?case
  proof (cases r1)
    case (Inl e)
    with Cons.prems b have "s' = s1" by simp
    with step[OF b] show ?thesis by simp
  next
    case (Inr a1)
    with Cons.prems b have "for_each f xs (s1, a1) = (s', r)" by simp
    from Cons.IH[OF this] step[OF b] trans show ?thesis by blast
  qed
qed

lemma for_each_acc_inv:
  assumes step: "\<And>x s a s' a'. f x (s, a) = (s', Inr a') \<Longrightarrow> P a \<Longrightarrow> P a'"
  shows "for_each f xs (s, a) = (s', Inr a') \<Longrightarrow> P a \<Longrightarrow> P a'"
proof (induction xs arbitrary: s a)
  case Nil
  then show ?case by simp
next
  case (Cons x xs)
  obtain s1 r1 where b: "f x (s, a) = (s1, r1)" by (cases "f x (s, a)")
  show ?case
  proof (cases r1)
    case (Inl e)
    with Cons.prems b show ?thesis by simp
  next
    case (Inr a1)
    with Cons.prems b have l: "for_each f xs (s1, a1) = (s', Inr a')" by simp
    from step b Inr Cons.prems(2) have "P a1" by blast
    from Cons.IH[OF l this] show ?thesis .
  qed
qed

lemma for_each_local_inv:
  assumes step: "\<And>x a a'. f x a = Inr a' \<Longrightarrow> P a \<Longrightarrow> P a'"
  shows "for_each_local f xs a = Inr a' \<Longrightarrow> P a \<Longrightarrow> P a'"
proof (induction xs arbitrary: a)
  case Nil
  then show ?case by simp
next
  case (Cons x xs)
  show ?case
  proof (cases "f x a")
    case (Inl e)
    with Cons.prems show ?thesis by simp
  next
    case (Inr a1)
    with Cons.prems have l: "for_each_local f xs a1 = Inr a'" by simp
    from step Inr Cons.prems(2) have "P a1" by blast
    from Cons.IH[OF l this] show ?thesis .
  qed
qed

subsection \<open>The store\<close>

lemma copy_layer_extends: "extends h (fst (copy_layer h a))"
  by (simp add: copy_layer_def extends_def)

lemma styles_append_length [simp]: "length (styles_append h a s) = length h"
  by (simp add: styles_append_def)

lemma styles_append_take: "n \<le> a \<Longrightarrow> take n (styles_append h a s) = take n h"
  by (simp add: styles_append_def)

lemma foldl_styles_append_length [simp]:
  "length (foldl (\<lambda>h' s. styles_append h' a s) h ss) = length h"
  by (induction ss arbitrary: h) simp_all

lemma foldl_styles_append_take:
  "n \<le> a \<Longrightarrow> take n (foldl (\<lambda>h' s. styles_append h' a s) h ss) = take n h"
  by (induction ss arbitrary: h) (simp_all add: styles_append_take)

lemma append_requested_style_length [simp]:
  "length (append_requested_style mf h a s) = length h"
  by (simp add: append_requested_style_def split: option.splits)

lemma append_requested_style_take:
  "n \<le> a \<Longrightarrow> take n (append_requested_style mf h a s) = take n h"
  by (simp add: append_requested_style_def styles_append_take foldl_styles_append_take
      split: option.splits)

lemma overlay_body_extends: "overlay_body mf obj (h, m) = (h', r) \<Longrightarrow> extends h h'"
  by (auto simp: overlay_body_def copy_layer_def extends_def Let_def styles_append_take
      split: option.splits)

lemma all_body_extends: "all_body mf obj (h, m) = (h', r) \<Longrightarrow> extends h h'"
  by (auto simp: all_body_def copy_layer_def extends_def Let_def append_requested_style_take
      split: option.splits if_splits)

lemma explicit_body_extends: "explicit_body mf params item (h, m) = (h', r) \<Longrightarrow> extends h h'"
  by (cases item)
     (auto simp: explicit_body_def copy_layer_def extends_def Let_def styles_append_take
        append_requested_style_take split: option.splits sum.splits)

lemma add_layers_extends: "add_layers self params ls (h, m) = (h', r) \<Longrightarrow> extends h h'"
  unfolding add_layers_def
  by (auto split: if_splits
      intro: for_each_state_rel[where R = extends, OF overlay_body_extends extends_refl extends_trans]
             for_each_state_rel[where R = extends, OF all_body_extends extends_refl extends_trans]
             for_each_state_rel[where R = extends, OF explicit_body_extends extends_refl extends_trans])

lemma buildMap_extends: "extends h (fst (buildMap self params h))"
  by (auto simp: buildMap_def extends_refl split: sum.splits option.splits prod.splits
      dest: add_layers_extends)

subsection \<open>Order of the checks\<close>

text \<open>
  Claim C3. The CRS is checked first: a request whose CRS is not in the allowed list
  raises the unsupported-CRS exception whatever its bounding box is. With an allowed CRS,
  a bounding box with minx >= maxx or miny >= maxy raises the exception for that
  comparison, the one for x first; equal values fail.
\<close>

theorem buildMap_checks_crs_then_bbox:
  "(p_crs params = Some c \<and> crs_repr c \<notin> set (allowedepsgcodes self)
      \<longrightarrow> buildMap self params h
            = (h, Inl (OGCException (Unsupported_CRS (upper (crs_repr c))) (Some ''InvalidCRS''))))
   \<and> (p_crs params = Some c \<and> crs_repr c \<in> set (allowedepsgcodes self)
        \<and> p_bbox params = Some (minx # miny # maxx # maxy # rest)
        \<and> (minx \<ge> maxx \<or> miny \<ge> maxy)
      \<longrightarrow> buildMap self params h
            = (h, Inl (OGCException (if minx \<ge> maxx then BBox_minx else BBox_miny) None)))"
  by (simp add: buildMap_def map_before_layers_def check_crs_def check_bbox_def)

lemma example_crs_repr: "crs_repr (CRS ''EPSG'' 4326) = ''epsg:4326''"
  by (simp add: crs_repr_def CRS_def lower_def lower_char_def show_int_def show_nat.simps
      digit_char_def)

lemma example_crs_repr2: "crs_repr (CRS ''EPSG'' 3857) = ''epsg:3857''"
  by (simp add: crs_repr_def CRS_def lower_def lower_char_def show_int_def show_nat.simps
      digit_char_def)

theorem buildMap_checks_crs_then_bbox_witness:
  "buildMap example_handler
      (example_params\<lparr> p_crs := Some (CRS ''EPSG'' 3857), p_bbox := Some [5, 0, 5, 10] \<rparr>) example_heap
     = (example_heap, Inl (OGCException (Unsupported_CRS ''EPSG:3857'') (Some ''InvalidCRS'')))
   \<and> buildMap example_handler (example_params\<lparr> p_bbox := Some [5, 0, 5, 10] \<rparr>) example_heap
     = (example_heap, Inl (OGCException BBox_minx None))
   \<and> buildMap example_handler (example_params\<lparr> p_bbox := Some [0, 7, 10, 7] \<rparr>) example_heap
     = (example_heap, Inl (OGCException BBox_miny None))"
proof -
  have u: "upper ''epsg:3857'' = ''EPSG:3857''"
    by (simp add: upper_def upper_char_def)
  have 1: "buildMap example_handler
      (example_params\<lparr> p_crs := Some (CRS ''EPSG'' 3857), p_bbox := Some [5, 0, 5, 10] \<rparr>) example_heap
     = (example_heap, Inl (OGCException (Unsupported_CRS ''EPSG:3857'') (Some ''InvalidCRS'')))"
    using buildMap_checks_crs_then_bbox
      [of "example_params\<lparr> p_crs := Some (CRS ''EPSG'' 3857), p_bbox := Some [5, 0, 5, 10] \<rparr>"
          "CRS ''EPSG'' 3857" example_handler example_heap]
    by (simp add: example_params_def example_handler_def example_crs_repr2 u)
  have 2: "buildMap example_handler (example_params\<lparr> p_bbox := Some [5, 0, 5, 10] \<rparr>) example_heap
     = (example_heap, Inl (OGCException BBox_minx None))"
    using buildMap_checks_crs_then_bbox
      [of "example_params\<lparr> p_bbox := Some [5, 0, 5, 10] \<rparr>"
          "CRS ''EPSG'' 4326" example_handler example_heap 5 0 5 10 "[]"]
    by (simp add: example_params_def example_handler_def example_crs_repr)
  have 3: "buildMap example_handler (example_params\<lparr> p_bbox := Some [0, 7, 10, 7] \<rparr>) example_heap
     = (example_heap, Inl (OGCException BBox_miny None))"
    using buildMap_checks_crs_then_bbox
      [of "example_params\<lparr> p_bbox := Some [0, 7, 10, 7] \<rparr>"
          "CRS ''EPSG'' 4326" example_handler example_heap 0 7 10 7 "[]"]
    by (simp add: example_params_def example_handler_def example_crs_repr)
  from 1 2 3 show ?thesis by simp
qed

subsection \<open>The background\<close>

lemma append_style_background [simp]: "m_background (append_style m n s) = m_background m"
  by (simp add: append_style_def)

lemma layers_append_background [simp]: "m_background (layers_append m l) = m_background m"
  by (simp add: layers_append_def)

lemma register_styles_background:
  "for_each_local (register_style mf lname) ss m = Inr m' \<Longrightarrow> m_background m' = m_background m"
proof (induction ss arbitrary: m)
  case Nil
  then show ?case by simp
next
  case (Cons s ss)
  then show ?case
    by (cases "mf_styles mf s") (auto simp: register_style_def)
qed

lemma foldl_styles_background:
  "m_background (foldl (\<lambda>m' stylename. case mf_styles mf stylename of
                          Some sty \<Rightarrow> append_style m' stylename sty | None \<Rightarrow> m') m ss)
     = m_background m"
  by (induction ss arbitrary: m) (simp_all split: option.splits)

lemma overlay_body_background:
  "overlay_body mf obj (h, m) = (h', Inr m') \<Longrightarrow> m_background m' = m_background m"
  by (auto simp: overlay_body_def Let_def split: option.splits prod.splits)

lemma all_body_background:
  "all_body mf obj (h, m) = (h', Inr m') \<Longrightarrow> m_background m' = m_background m"
  by (auto simp: all_body_def Let_def foldl_styles_background
      split: option.splits prod.splits if_splits)

lemma explicit_body_background:
  "explicit_body mf params item (h, m) = (h', Inr m') \<Longrightarrow> m_background m' = m_background m"
  by (cases item)
     (auto simp: explicit_body_def Let_def dest: register_styles_background
        split: option.splits prod.splits sum.splits)

lemma add_layers_background:
  assumes "add_layers self params ls (h, m) = (h', Inr m')"
  shows "m_background m' = m_background m"
proof -
  have o: "\<And>f xs. (\<And>x s a s' a'. f x (s, a) = (s', Inr a') \<Longrightarrow> m_background a' = m_background a)
      \<Longrightarrow> for_each f xs (h, m) = (h', Inr m') \<Longrightarrow> m_background m' = m_background m"
  proof -
    fix f :: "'x \<Rightarrow> heap \<times> wmap \<Rightarrow> heap \<times> (exn + wmap)" and xs
    assume st: "\<And>x s a s' a'. f x (s, a) = (s', Inr a') \<Longrightarrow> m_background a' = m_background a"
      and l: "for_each f xs (h, m) = (h', Inr m')"
    show "m_background m' = m_background m"
      using for_each_acc_inv[where P = "\<lambda>x. m_background x = m_background m" and f = f, OF _ l]
        st by simp
  qed
  from assms show ?thesis
    unfolding add_layers_def
    by (auto split: if_splits
        intro: o[OF overlay_body_background] o[OF all_body_background]
               o[OF explicit_body_background])
qed

lemma zoom_to_box_background:
  "zoom_to_box params m = Inr m' \<Longrightarrow> m_background m' = m_background m"
  by (auto simp: zoom_to_box_def split: option.splits if_splits)

lemma set_buffer_size_background [simp]:
  "m_background (set_buffer_size self params m) = m_background m"
  by (simp add: set_buffer_size_def split: option.splits)

lemma buildMap_background:
  assumes "buildMap self params h = (h', Inr m)"
  shows "\<exists>m0. new_Map params = Inr m0
           \<and> (\<exists>m1. set_background self params m0 = Inr m1 \<and> m_background m = m_background m1)"
  using assms
  by (auto simp: buildMap_def map_before_layers_def
      split: sum.splits option.splits prod.splits
      dest!: add_layers_background zoom_to_box_background)

lemmas buildMap_eval = buildMap_def map_before_layers_def check_crs_def check_bbox_def
  new_Map_def set_background_def set_buffer_size_def add_layers_def explicit_body_def
  all_body_def overlay_body_def requested_style_def register_style_def
  append_requested_style_def styles_append_def copy_layer_def copy_fields_def
  zoom_to_box_def Map_def append_style_def layers_append_def enumerate_eq_zip Let_def

lemmas example_defs = example_handler_def example_params_def example_heap_def
  example_mapfactory_def example_crs_repr

text \<open>
  Claim C5, as the code has it. When \<^verbatim>\<open>_buildMap\<close> returns a Map: with
  \<^verbatim>\<open>transparent\<close> one of FALSE, False and false, the background is the supplied
  \<^verbatim>\<open>bgcolor\<close>, and is left unset when that \<^verbatim>\<open>bgcolor\<close> is \<^verbatim>\<open>None\<close>; with \<^verbatim>\<open>transparent\<close>
  absent and a background declared by the catalog, it is the catalog's; in every other
  case it is \<^verbatim>\<open>Color(0, 0, 0, 0)\<close>.
\<close>

theorem buildMap_background_resolution:
  assumes "buildMap self params h = (h', Inr m)"
  shows "m_background m =
     (if p_transparent params \<in> {Some ''FALSE'', Some ''False'', Some ''false''}
      then (case p_bgcolor params of Some (Some c) \<Rightarrow> Some c | _ \<Rightarrow> None)
      else if p_transparent params = None \<and> mf_bgcolor (mapfactory self) \<noteq> None
      then mf_bgcolor (mapfactory self)
      else Some (Color 0 0 0 0))"
proof -
  from buildMap_background[OF assms] obtain m0 m1 where
    n: "new_Map params = Inr m0" and s: "set_background self params m0 = Inr m1"
    and b: "m_background m = m_background m1" by blast
  from n have "m_background m0 = None"
    by (auto simp: new_Map_def Map_def split: option.splits)
  with s b show ?thesis
    by (auto simp: set_background_def split: option.splits if_splits)
qed

text \<open>
  The theorem at the example request: an opaque request with a red \<^verbatim>\<open>bgcolor\<close>, and a
  request with \<^verbatim>\<open>transparent=TRUE\<close>.
\<close>

theorem buildMap_background_resolution_witness:
  "map_sum id m_background
      (snd (buildMap example_handler
              (example_params\<lparr> p_transparent := Some ''FALSE'',
                                 p_bgcolor := Some (Some (Color 255 0 0 255)) \<rparr>) example_heap))
     = Inr (Some (Color 255 0 0 255))
   \<and> map_sum id m_background
      (snd (buildMap example_handler
              (example_params\<lparr> p_transparent := Some ''TRUE'' \<rparr>) example_heap))
     = Inr (Some (Color 0 0 0 0))"
proof -
  let ?p1 = "example_params\<lparr> p_transparent := Some ''FALSE'',
                               p_bgcolor := Some (Some (Color 255 0 0 255)) \<rparr>"
  let ?p2 = "example_params\<lparr> p_transparent := Some ''TRUE'' \<rparr>"
  have ok1: "\<exists>h' m. buildMap example_handler ?p1 example_heap = (h', Inr m)"
    by (simp add: buildMap_eval example_defs)
  have ok2: "\<exists>h' m. buildMap example_handler ?p2 example_heap = (h', Inr m)"
    by (simp add: buildMap_eval example_defs)
  from ok1 obtain h1 m1 where r1: "buildMap example_handler ?p1 example_heap = (h1, Inr m1)"
    by blast
  from ok2 obtain h2 m2 where r2: "buildMap example_handler ?p2 example_heap = (h2, Inr m2)"
    by blast
  from buildMap_background_resolution[OF r1]
  have "m_background m1 = Some (Color 255 0 0 255)"
    by (simp add: example_params_def)
  moreover from buildMap_background_resolution[OF r2]
  have "m_background m2 = Some (Color 0 0 0 0)"
    by (simp add: example_params_def)
  ultimately show ?thesis using r1 r2 by simp
qed

text \<open>
  Claim C5 as stated fails for \<^verbatim>\<open>transparent=false\<close> with a \<^verbatim>\<open>bgcolor\<close> that is \<^verbatim>\<open>None\<close>:
  neither of the first two cases applies, yet line 379 assigns nothing and the Map keeps
  no background instead of \<^verbatim>\<open>Color(0, 0, 0, 0)\<close>.
\<close>

theorem buildMap_background_unset_counterexample:
  "map_sum id m_background
      (snd (buildMap example_handler
              (example_params\<lparr> p_transparent := Some ''false'', p_bgcolor := Some None \<rparr>)
              example_heap))
     = Inr None"
  by (simp add: buildMap_eval example_defs)

subsection \<open>The catalog's layers\<close>

text \<open>
  Claim C7, as the code has it. \<^verbatim>\<open>_buildMap\<close> (and \<^verbatim>\<open>GetFeatureInfo\<close>, which changes the
  store through it only) leaves every object that was in the store before the call as it
  was, in each of the three ways of naming layers and also when it raises: the style
  lists it grows belong to objects that \<^verbatim>\<open>copy_layer\<close> has just made, at a new address
  and with an empty style list of their own. The copy holds the same datasource
  reference as the layer it was made from.
\<close>

theorem buildMap_leaves_catalog_unchanged:
  "length h \<le> length (fst (buildMap self params h))
   \<and> take (length h) (fst (buildMap self params h)) = h
   \<and> (\<forall>a < length h. fst (buildMap self params h) ! a = h ! a)
   \<and> fst (GetFeatureInfo tostring query self params h) = fst (buildMap self params h)
   \<and> snd (copy_layer h obj) = length h
   \<and> fst (copy_layer h obj) = h @ [copy_fields (h ! obj)]
   \<and> styles (copy_fields l) = []
   \<and> datasource (copy_fields l) = datasource l"
proof -
  have e: "extends h (fst (buildMap self params h))" by (rule buildMap_extends)
  then have "\<forall>a < length h. fst (buildMap self params h) ! a = h ! a"
    using extends_nth by blast
  moreover have "fst (GetFeatureInfo tostring query self params h) = fst (buildMap self params h)"
    by (simp add: GetFeatureInfo_def split: prod.splits sum.splits)
  ultimately show ?thesis using e
    by (simp add: extends_def copy_layer_def copy_fields_def)
qed

text \<open>
  The theorem at the example request: after the call the catalog's \<^verbatim>\<open>roads\<close> layer
  still has no style, and the Map's first layer, the copy, has the default style.
\<close>

theorem buildMap_leaves_catalog_unchanged_witness:
  "fst (buildMap example_handler example_params example_heap) ! 0 = example_heap ! 0
   \<and> styles (example_heap ! 0) = []
   \<and> map_sum id (\<lambda>m. styles (m_layers m ! 0))
        (snd (buildMap example_handler example_params example_heap)) = Inr [''roads_style'']"
proof -
  have "\<forall>a < length example_heap.
          fst (buildMap example_handler example_params example_heap) ! a = example_heap ! a"
    using buildMap_leaves_catalog_unchanged[of example_heap example_handler example_params]
    by blast
  then have "fst (buildMap example_handler example_params example_heap) ! 0 = example_heap ! 0"
    by (simp add: example_heap_def)
  moreover have "styles (example_heap ! 0) = []"
    by (simp add: example_heap_def)
  moreover have "map_sum id (\<lambda>m. styles (m_layers m ! 0))
        (snd (buildMap example_handler example_params example_heap)) = Inr [''roads_style'']"
    by (simp add: buildMap_eval example_defs)
  ultimately show ?thesis by simp
qed

text \<open>
  Claim C7 as stated fails in its last part: line 298 assigns \<^verbatim>\<open>obj.datasource\<close> itself,
  so the copy (a new object, at address 2) and the catalog's layer (at address 0) refer
  to one and the same datasource object.
\<close>

theorem copy_layer_shares_datasource_counterexample:
  "snd (copy_layer example_heap 0) = 2
   \<and> datasource (fst (copy_layer example_heap 0) ! 2) = Some 0
   \<and> datasource (fst (copy_layer example_heap 0) ! 0) = Some 0"
  by (simp add: copy_layer_def copy_fields_def example_heap_def)

subsection \<open>Layers named one by one\<close>

lemma append_style_layers [simp]: "m_layers (append_style m n s) = m_layers m"
  by (simp add: append_style_def)

lemma register_styles_layers:
  "for_each_local (register_style mf lname) ss m = Inr m' \<Longrightarrow> m_layers m' = m_layers m"
proof (induction ss arbitrary: m)
  case Nil
  then show ?case by simp
next
  case (Cons s ss)
  then show ?case
    by (cases "mf_styles mf s") (auto simp: register_style_def)
qed

lemma map_before_layers_no_layers:
  "map_before_layers self params = Inr m \<Longrightarrow> m_layers m = []"
  by (auto simp: map_before_layers_def new_Map_def Map_def set_background_def
      set_buffer_size_def split: option.splits sum.splits if_splits)

lemma zoom_to_box_layers: "zoom_to_box params m = Inr m' \<Longrightarrow> m_layers m' = m_layers m"
  by (auto simp: zoom_to_box_def split: option.splits if_splits)

lemma explicit_body_layers:
  "explicit_body mf params item (h, m) = (h', Inr m') \<Longrightarrow> \<exists>l. m_layers m' = m_layers m @ [l]"
  by (cases item)
     (auto simp: explicit_body_def Let_def layers_append_def dest: register_styles_layers
        split: option.splits prod.splits sum.splits)

lemma explicit_loop_layers:
  "for_each (explicit_body mf params) xs (h, m) = (h', Inr m')
     \<Longrightarrow> \<exists>ls. m_layers m' = m_layers m @ ls \<and> length ls = length xs"
proof (induction xs arbitrary: h m)
  case Nil
  then show ?case by simp
next
  case (Cons x xs)
  obtain h1 r1 where b: "explicit_body mf params x (h, m) = (h1, r1)"
    by (cases "explicit_body mf params x (h, m)")
  show ?case
  proof (cases r1)
    case (Inl e)
    with Cons.prems b show ?thesis by simp
  next
    case (Inr m1)
    with Cons.prems b have l: "for_each (explicit_body mf params) xs (h1, m1) = (h', Inr m')"
      by simp
    from explicit_body_layers b Inr obtain l1 where l1: "m_layers m1 = m_layers m @ [l1]"
      by blast
    from Cons.IH[OF l] obtain ls where "m_layers m' = m_layers m1 @ ls" "length ls = length xs"
      by blast
    with l1 have "m_layers m' = m_layers m @ (l1 # ls) \<and> length (l1 # ls) = length (x # xs)"
      by simp
    then show ?thesis by blast
  qed
qed

lemma explicit_loop_extends:
  "for_each (explicit_body mf params) xs (h, m) = (h', r) \<Longrightarrow> extends h h'"
  by (rule for_each_state_rel[where R = extends, OF explicit_body_extends extends_refl extends_trans])

lemma foldl_styles_append_styles:
  "a < length h \<Longrightarrow>
     styles (foldl (\<lambda>h' s. styles_append h' a s) h ss ! a) = styles (h ! a) @ ss"
  by (induction ss arbitrary: h) (simp_all add: styles_append_def)

lemma append_requested_style_styles:
  "a < length h \<Longrightarrow>
     styles (append_requested_style mf h a d ! a)
       = styles (h ! a) @ (case mf_aggregatestyles mf d of Some names \<Rightarrow> names | None \<Rightarrow> [d])"
  by (simp add: append_requested_style_def foldl_styles_append_styles styles_append_def
      split: option.splits)

lemma layer_not_defined_step:
  assumes "mf_meta_layers mf n = None" "mf_layers mf n = None"
  shows "explicit_body mf params (i, n) (h, m)
           = (h, Inl (OGCException (Layer_not_defined n) (Some ''LayerNotDefined'')))"
  using assms by (simp add: explicit_body_def)

lemma style_not_defined_step:
  assumes "mf_meta_layers mf n = None" "mf_layers mf n = Some a" "p_styles params = Some sts"
    "i < length sts" "sts ! i \<noteq> []" "wmsextrastyles (h ! a) = Some extra" "sts ! i \<notin> set extra"
  shows "snd (explicit_body mf params (i, n) (h, m))
           = Inl (OGCException (Invalid_style (sts ! i) n) (Some ''StyleNotDefined''))"
  using assms
  by (simp add: explicit_body_def copy_layer_def copy_fields_def requested_style_def)

lemma default_style_step:
  assumes "mf_meta_layers mf n = None" "mf_layers mf n = Some a" "p_styles params = Some sts"
    "length sts \<le> i \<or> sts ! i = []"
    "explicit_body mf params (i, n) (h, m) = (h', Inr m')"
  shows "\<exists>d. wmsdefaultstyle (h ! a) = Some d
           \<and> (\<exists>l. m_layers m' = m_layers m @ [l]
                \<and> styles l = (case mf_aggregatestyles mf d of Some names \<Rightarrow> names | None \<Rightarrow> [d]))"
proof -
  let ?c = "copy_fields (h ! a)"
  from assms(1-4) have rs: "requested_style params i n ?c
      = (case wmsdefaultstyle (h ! a) of None \<Rightarrow> Inl (AttributeError ''wmsdefaultstyle'')
         | Some d \<Rightarrow> Inr d)"
    by (auto simp: requested_style_def copy_fields_def)
  from assms(5) assms(1,2) rs obtain d where d: "wmsdefaultstyle (h ! a) = Some d"
    by (cases "wmsdefaultstyle (h ! a)") (auto simp: explicit_body_def copy_layer_def)
  let ?h2 = "append_requested_style mf (h @ [?c]) (length h) d"
  have st: "styles (?h2 ! length h)
      = (case mf_aggregatestyles mf d of Some names \<Rightarrow> names | None \<Rightarrow> [d])"
    using append_requested_style_styles[of "length h" "h @ [?c]" mf d]
    by (simp add: copy_fields_def)
  from assms(5) assms(1,2) rs d
  have "\<exists>m1. for_each_local (register_style mf n) (styles (?h2 ! length h)) m = Inr m1
           \<and> m' = layers_append m1 (?h2 ! length h)"
    by (auto simp: explicit_body_def copy_layer_def Let_def split: sum.splits)
  then obtain m1 where m1: "for_each_local (register_style mf n) (styles (?h2 ! length h)) m = Inr m1"
    and m': "m' = layers_append m1 (?h2 ! length h)" by blast
  from register_styles_layers[OF m1] m'
  have "m_layers m' = m_layers m @ [?h2 ! length h]" by (simp add: layers_append_def)
  with st d show ?thesis by blast
qed

lemma enumerate_split:
  "i < length ls \<Longrightarrow>
     enumerate 0 ls = enumerate 0 (take i ls) @ (i, ls ! i) # enumerate (Suc i) (drop (Suc i) ls)"
proof -
  assume i: "i < length ls"
  then have "ls = take i ls @ ls ! i # drop (Suc i) ls" by (simp add: id_take_nth_drop)
  then have "enumerate 0 ls = enumerate 0 (take i ls @ ls ! i # drop (Suc i) ls)" by simp
  also have "\<dots> = enumerate 0 (take i ls) @ enumerate (0 + length (take i ls)) (ls ! i # drop (Suc i) ls)"
    by (rule enumerate_append_eq)
  also from i have "\<dots> = enumerate 0 (take i ls) @ (i, ls ! i) # enumerate (Suc i) (drop (Suc i) ls)"
    by (simp add: min_def)
  finally show ?thesis .
qed

lemma register_styles_ok:
  "\<forall>s\<in>set ss. mf_styles mf s \<noteq> None
     \<Longrightarrow> \<exists>m'. for_each_local (register_style mf lname) ss m = Inr m'"
proof (induction ss arbitrary: m)
  case Nil
  then show ?case by simp
next
  case (Cons s ss)
  then obtain sty where "mf_styles mf s = Some sty" by auto
  with Cons show ?case by (simp add: register_style_def)
qed

lemma default_style_step_returns:
  assumes "mf_meta_layers mf n = None" "mf_layers mf n = Some a" "p_styles params = Some sts"
    "length sts \<le> i \<or> sts ! i = []" "wmsdefaultstyle (h ! a) = Some d"
    "\<forall>s\<in>set (case mf_aggregatestyles mf d of Some names \<Rightarrow> names | None \<Rightarrow> [d]).
        mf_styles mf s \<noteq> None"
  shows "\<exists>h' m' l. explicit_body mf params (i, n) (h, m) = (h', Inr m')
           \<and> m_layers m' = m_layers m @ [l]
           \<and> styles l = (case mf_aggregatestyles mf d of Some names \<Rightarrow> names | None \<Rightarrow> [d])"
proof -
  let ?c = "copy_fields (h ! a)"
  let ?h2 = "append_requested_style mf (h @ [?c]) (length h) d"
  let ?ex = "case mf_aggregatestyles mf d of Some names \<Rightarrow> names | None \<Rightarrow> [d]"
  from assms(3-5) have rs: "requested_style params i n ?c = Inr d"
    by (auto simp: requested_style_def copy_fields_def)
  have st: "styles (?h2 ! length h) = ?ex"
    using append_requested_style_styles[of "length h" "h @ [?c]" mf d]
    by (simp add: copy_fields_def)
  from register_styles_ok[of ?ex mf n m] assms(6) obtain m1 where
    m1: "for_each_local (register_style mf n) ?ex m = Inr m1" by blast
  from assms(1,2) rs st m1
  have b: "explicit_body mf params (i, n) (h, m) = (?h2, Inr (layers_append m1 (?h2 ! length h)))"
    by (simp add: explicit_body_def copy_layer_def Let_def)
  from register_styles_layers[OF m1]
  have "m_layers (layers_append m1 (?h2 ! length h)) = m_layers m @ [?h2 ! length h]"
    by (simp add: layers_append_def)
  with b st show ?thesis by blast
qed

text \<open>
  Claim C4, as the code has it. The loop over the names raises at the first name that
  fails, after the checks of lines 364 to 392. So let the request have passed these
  checks and name its layers one by one, let the names before position \<open>i\<close> have been
  resolved without an exception, and let the name at position \<open>i\<close> be no meta-layer.
  Then: if the name is no layer of the catalog either, \<^verbatim>\<open>_buildMap\<close> raises the exception
  for an undefined layer; if it is a layer and \<^verbatim>\<open>styles\<close> holds at position \<open>i\<close> a style
  that is not empty and not among the layer's extra styles, \<^verbatim>\<open>_buildMap\<close> raises the
  exception for an undefined style; and if position \<open>i\<close> of \<^verbatim>\<open>styles\<close> is out of range or
  empty, the layer's default style is used: every Map that \<^verbatim>\<open>_buildMap\<close> returns carries
  it (the members of it, when it is an aggregate style) on its layer at position \<open>i\<close>,
  and when the catalog's style table has these styles, the name at position \<open>i\<close> is
  resolved without an exception too.
\<close>

theorem explicit_layer_resolution:
  assumes pre: "map_before_layers self params = Inr m0"
    and ls: "p_layers params = Some ls"
    and mode: "hd ls \<notin> set [''osm_haiti_overlay'', ''osm_haiti_overlay_900913'', ''__all__'']"
    and i: "i < length ls"
    and before: "for_each (explicit_body (mapfactory self) params) (enumerate 0 (take i ls)) (h, m0)
                   = (h1, Inr m1)"
    and nometa: "mf_meta_layers (mapfactory self) (ls ! i) = None"
  shows "(mf_layers (mapfactory self) (ls ! i) = None
            \<longrightarrow> buildMap self params h
                  = (h1, Inl (OGCException (Layer_not_defined (ls ! i)) (Some ''LayerNotDefined''))))
       \<and> (\<forall>a sts extra.
             mf_layers (mapfactory self) (ls ! i) = Some a \<and> a < length h
             \<and> p_styles params = Some sts \<and> i < length sts \<and> sts ! i \<noteq> []
             \<and> wmsextrastyles (h ! a) = Some extra \<and> sts ! i \<notin> set extra
            \<longrightarrow> snd (buildMap self params h)
                  = Inl (OGCException (Invalid_style (sts ! i) (ls ! i)) (Some ''StyleNotDefined'')))
       \<and> (\<forall>a sts h' m.
             mf_layers (mapfactory self) (ls ! i) = Some a \<and> a < length h
             \<and> p_styles params = Some sts \<and> (length sts \<le> i \<or> sts ! i = [])
             \<and> buildMap self params h = (h', Inr m)
            \<longrightarrow> (\<exists>d. wmsdefaultstyle (h ! a) = Some d
                   \<and> styles (m_layers m ! i)
                       = (case mf_aggregatestyles (mapfactory self) d of
                            Some names \<Rightarrow> names | None \<Rightarrow> [d])))
       \<and> (\<forall>a sts d.
             mf_layers (mapfactory self) (ls ! i) = Some a \<and> a < length h
             \<and> p_styles params = Some sts \<and> (length sts \<le> i \<or> sts ! i = [])
             \<and> wmsdefaultstyle (h ! a) = Some d
             \<and> (\<forall>s\<in>set (case mf_aggregatestyles (mapfactory self) d of
                              Some names \<Rightarrow> names | None \<Rightarrow> [d]).
                    mf_styles (mapfactory self) s \<noteq> None)
            \<longrightarrow> (\<exists>h2 m2.
                   for_each (explicit_body (mapfactory self) params)
                       (enumerate 0 (take (Suc i) ls)) (h, m0) = (h2, Inr m2)
                   \<and> length (m_layers m2) = Suc i
                   \<and> styles (m_layers m2 ! i)
                       = (case mf_aggregatestyles (mapfactory self) d of
                            Some names \<Rightarrow> names | None \<Rightarrow> [d])))"
proof -
  let ?mf = "mapfactory self"
  let ?B = "explicit_body ?mf params"
  let ?rest = "enumerate (Suc i) (drop (Suc i) ls)"
  from mode have al: "add_layers self params ls (h, m0) = for_each ?B (enumerate 0 ls) (h, m0)"
    by (simp add: add_layers_def)
  have loop: "for_each ?B (enumerate 0 ls) (h, m0)
      = (case ?B (i, ls ! i) (h1, m1) of
           (s', Inl e) \<Rightarrow> (s', Inl e)
         | (s', Inr a') \<Rightarrow> for_each ?B ?rest (s', a'))"
    by (simp add: enumerate_split[OF i] for_each_append before)
  have bm: "buildMap self params h
      = (case for_each ?B (enumerate 0 ls) (h, m0) of
           (h', Inl e) \<Rightarrow> (h', Inl e)
         | (h', Inr m2) \<Rightarrow> (h', zoom_to_box params m2))"
    by (simp add: buildMap_def pre ls al)
  from explicit_loop_extends[OF before] have ext: "extends h h1" .
  from explicit_loop_layers[OF before] map_before_layers_no_layers[OF pre] i
  have len1: "length (m_layers m1) = i" by auto
  have a: "buildMap self params h
             = (h1, Inl (OGCException (Layer_not_defined (ls ! i)) (Some ''LayerNotDefined'')))"
    if "mf_layers ?mf (ls ! i) = None"
    using layer_not_defined_step[OF nometa that, of params i h1 m1] bm loop by simp
  have b: "snd (buildMap self params h)
             = Inl (OGCException (Invalid_style (sts ! i) (ls ! i)) (Some ''StyleNotDefined''))"
    if "mf_layers ?mf (ls ! i) = Some a" "a < length h" "p_styles params = Some sts"
       "i < length sts" "sts ! i \<noteq> []" "wmsextrastyles (h ! a) = Some extra" "sts ! i \<notin> set extra"
    for a sts extra
  proof -
    from extends_nth[OF ext that(2)] that(6) have "wmsextrastyles (h1 ! a) = Some extra" by simp
    from style_not_defined_step[OF nometa that(1) that(3) that(4) that(5) this that(7), of m1]
    show ?thesis using bm loop
      by (cases "?B (i, ls ! i) (h1, m1)") simp
  qed
  have c: "\<exists>d. wmsdefaultstyle (h ! a) = Some d
             \<and> styles (m_layers m ! i)
                 = (case mf_aggregatestyles ?mf d of Some names \<Rightarrow> names | None \<Rightarrow> [d])"
    if "mf_layers ?mf (ls ! i) = Some a" "a < length h" "p_styles params = Some sts"
       "length sts \<le> i \<or> sts ! i = []" "buildMap self params h = (h', Inr m)"
    for a sts h' m
  proof -
    obtain h2 r2 where st: "?B (i, ls ! i) (h1, m1) = (h2, r2)"
      by (cases "?B (i, ls ! i) (h1, m1)")
    from that(5) bm loop st obtain m3 where r2: "r2 = Inr m3"
      by (cases r2) auto
    from that(5) bm loop st r2 obtain m2 where
      rest: "for_each ?B ?rest (h2, m3) = (h', Inr m2)" and z: "zoom_to_box params m2 = Inr m"
      by (cases "for_each ?B ?rest (h2, m3)") (auto split: sum.splits)
    from default_style_step[OF nometa that(1) that(3) that(4), of h1 m1 h2 m3] st r2
    obtain d l where d: "wmsdefaultstyle (h1 ! a) = Some d"
      and l: "m_layers m3 = m_layers m1 @ [l]"
      and sl: "styles l = (case mf_aggregatestyles ?mf d of Some names \<Rightarrow> names | None \<Rightarrow> [d])"
      by blast
    from explicit_loop_layers[OF rest] obtain more where "m_layers m2 = m_layers m3 @ more"
      by blast
    with l zoom_to_box_layers[OF z] have "m_layers m = m_layers m1 @ l # more" by simp
    with len1 have "m_layers m ! i = l" by (simp add: nth_append)
    with sl d extends_nth[OF ext that(2)] show ?thesis by simp
  qed
  have d: "\<exists>h2 m2. for_each ?B (enumerate 0 (take (Suc i) ls)) (h, m0) = (h2, Inr m2)
             \<and> length (m_layers m2) = Suc i
             \<and> styles (m_layers m2 ! i)
                 = (case mf_aggregatestyles ?mf d of Some names \<Rightarrow> names | None \<Rightarrow> [d])"
    if "mf_layers ?mf (ls ! i) = Some a" "a < length h" "p_styles params = Some sts"
       "length sts \<le> i \<or> sts ! i = []" "wmsdefaultstyle (h ! a) = Some d"
       "\<forall>s\<in>set (case mf_aggregatestyles ?mf d of Some names \<Rightarrow> names | None \<Rightarrow> [d]).
           mf_styles ?mf s \<noteq> None"
    for a sts d
  proof -
    from extends_nth[OF ext that(2)] that(5) have dd: "wmsdefaultstyle (h1 ! a) = Some d" by simp
    from default_style_step_returns[OF nometa that(1) that(3) that(4) dd that(6), of m1]
    obtain h2 m2 l where st: "?B (i, ls ! i) (h1, m1) = (h2, Inr m2)"
      and l: "m_layers m2 = m_layers m1 @ [l]"
      and sl: "styles l = (case mf_aggregatestyles ?mf d of Some names \<Rightarrow> names | None \<Rightarrow> [d])"
      by blast
    from i have "take (Suc i) ls = take i ls @ [ls ! i]" by (simp add: take_Suc_conv_app_nth)
    then have "enumerate 0 (take (Suc i) ls) = enumerate 0 (take i ls) @ [(i, ls ! i)]"
      using i by (simp add: enumerate_append_eq min_def)
    then have "for_each ?B (enumerate 0 (take (Suc i) ls)) (h, m0) = (h2, Inr m2)"
      by (simp add: for_each_append before st)
    moreover from l len1 have "length (m_layers m2) = Suc i" "m_layers m2 ! i = l"
      by (simp_all add: nth_append)
    ultimately show ?thesis using sl by simp
  qed
  from a b c d show ?thesis by blast
qed

text \<open>
  The theorem at the example catalog. A request for \<^verbatim>\<open>roads\<close> and the unknown \<^verbatim>\<open>lakes\<close>
  raises at the second name, after \<^verbatim>\<open>roads\<close> has been resolved; a request for \<^verbatim>\<open>roads\<close>
  in the style \<^verbatim>\<open>roads_neon\<close> raises; a request whose \<^verbatim>\<open>styles\<close> has one position only
  resolves \<^verbatim>\<open>rivers\<close>, at position 1, and gives it its default style.
\<close>

theorem explicit_layer_resolution_witness:
  "snd (buildMap example_handler (example_params\<lparr> p_layers := Some [''roads'', ''lakes''] \<rparr>)
          example_heap)
     = Inl (OGCException (Layer_not_defined ''lakes'') (Some ''LayerNotDefined''))
   \<and> snd (buildMap example_handler (example_params\<lparr> p_styles := Some [''roads_neon''] \<rparr>)
            example_heap)
     = Inl (OGCException (Invalid_style ''roads_neon'' ''roads'') (Some ''StyleNotDefined''))
   \<and> map_sum id (\<lambda>m. styles (m_layers m ! 1))
        (snd (buildMap example_handler (example_params\<lparr> p_styles := Some [[]] \<rparr>) example_heap))
     = Inr [''rivers_style'']
   \<and> map_sum id (\<lambda>m. styles (m_layers m ! 1))
        (snd (for_each
                (explicit_body (mapfactory example_handler) (example_params\<lparr> p_styles := Some [[]] \<rparr>))
                (enumerate 0 (take (Suc 1) [''roads'', ''rivers'']))
                (example_heap, projr (map_before_layers example_handler example_params))))
     = Inr [''rivers_style'']"
proof -
  let ?mf = "mapfactory example_handler"
  let ?pa = "example_params\<lparr> p_layers := Some [''roads'', ''lakes''] \<rparr>"
  let ?pb = "example_params\<lparr> p_styles := Some [''roads_neon''] \<rparr>"
  let ?pc = "example_params\<lparr> p_styles := Some [[]] \<rparr>"
  let ?start = "projr (map_before_layers example_handler example_params)"
  have m0: "map_before_layers example_handler ?pa = Inr ?start"
           "map_before_layers example_handler ?pb = Inr ?start"
           "map_before_layers example_handler ?pc = Inr ?start"
    by (simp_all add: buildMap_eval example_defs)
  \<comment> \<open>the layer at position 1 is not defined\<close>
  let ?la = "for_each (explicit_body ?mf ?pa) (enumerate 0 (take 1 [''roads'', ''lakes'']))
               (example_heap, ?start)"
  have "\<exists>m1. snd ?la = Inr m1"
    by (simp add: buildMap_eval example_defs)
  then have la: "?la = (fst ?la, Inr (projr (snd ?la)))"
    by (metis prod.collapse sum.sel(2))
  have a: "buildMap example_handler ?pa example_heap
             = (fst ?la, Inl (OGCException (Layer_not_defined ''lakes'') (Some ''LayerNotDefined'')))"
    using explicit_layer_resolution[of example_handler ?pa ?start "[''roads'', ''lakes'']" 1
        example_heap "fst ?la" "projr (snd ?la)", OF m0(1) _ _ _ la]
    by (simp add: example_defs)
  \<comment> \<open>the style at position 0 is not one of the layer's extra styles\<close>
  have lb: "for_each (explicit_body ?mf ?pb) (enumerate 0 (take 0 [''roads'', ''rivers'']))
              (example_heap, ?start) = (example_heap, Inr ?start)"
    by simp
  have "\<forall>a sts extra.
          mf_layers ?mf ''roads'' = Some a \<and> a < length example_heap
          \<and> p_styles ?pb = Some sts \<and> 0 < length sts \<and> sts ! 0 \<noteq> []
          \<and> wmsextrastyles (example_heap ! a) = Some extra \<and> sts ! 0 \<notin> set extra
          \<longrightarrow> snd (buildMap example_handler ?pb example_heap)
                = Inl (OGCException (Invalid_style (sts ! 0) ''roads'') (Some ''StyleNotDefined''))"
    using explicit_layer_resolution[of example_handler ?pb ?start "[''roads'', ''rivers'']" 0
        example_heap example_heap ?start, OF m0(2) _ _ _ lb]
    by (simp add: example_defs)
  then have "mf_layers ?mf ''roads'' = Some 0 \<and> 0 < length example_heap
          \<and> p_styles ?pb = Some [''roads_neon''] \<and> 0 < length [''roads_neon'']
          \<and> [''roads_neon''] ! 0 \<noteq> []
          \<and> wmsextrastyles (example_heap ! 0) = Some [''roads_night'']
          \<and> [''roads_neon''] ! 0 \<notin> set [''roads_night'']
          \<longrightarrow> snd (buildMap example_handler ?pb example_heap)
                = Inl (OGCException (Invalid_style ([''roads_neon''] ! 0) ''roads'')
                        (Some ''StyleNotDefined''))"
    by blast
  then have b: "snd (buildMap example_handler ?pb example_heap)
      = Inl (OGCException (Invalid_style ''roads_neon'' ''roads'') (Some ''StyleNotDefined''))"
    by (simp add: example_defs)
  \<comment> \<open>\<^verbatim>\<open>styles\<close> has no position 1\<close>
  let ?lc = "for_each (explicit_body ?mf ?pc) (enumerate 0 (take 1 [''roads'', ''rivers'']))
               (example_heap, ?start)"
  let ?ld = "for_each (explicit_body ?mf ?pc) (enumerate 0 (take (Suc 1) [''roads'', ''rivers'']))
               (example_heap, ?start)"
  have "\<exists>m1. snd ?lc = Inr m1"
    by (simp add: buildMap_eval example_defs)
  then have lc: "?lc = (fst ?lc, Inr (projr (snd ?lc)))"
    by (metis prod.collapse sum.sel(2))
  have ok: "\<exists>m. snd (buildMap example_handler ?pc example_heap) = Inr m"
    by (simp add: buildMap_eval example_defs)
  then have r: "buildMap example_handler ?pc example_heap
      = (fst (buildMap example_handler ?pc example_heap),
         Inr (projr (snd (buildMap example_handler ?pc example_heap))))"
    by (metis prod.collapse sum.sel(2))
  let ?res = "projr (snd (buildMap example_handler ?pc example_heap))"
  note t = explicit_layer_resolution[of example_handler ?pc ?start "[''roads'', ''rivers'']" 1
        example_heap "fst ?lc" "projr (snd ?lc)", OF m0(3) _ _ _ lc]
  have "\<forall>a sts h' m.
          mf_layers ?mf ''rivers'' = Some a \<and> a < length example_heap
          \<and> p_styles ?pc = Some sts \<and> (length sts \<le> 1 \<or> sts ! 1 = [])
          \<and> buildMap example_handler ?pc example_heap = (h', Inr m)
          \<longrightarrow> (\<exists>d. wmsdefaultstyle (example_heap ! a) = Some d
                 \<and> styles (m_layers m ! 1)
                     = (case mf_aggregatestyles ?mf d of Some names \<Rightarrow> names | None \<Rightarrow> [d]))"
    using t by (simp add: example_defs)
  then have "mf_layers ?mf ''rivers'' = Some 1 \<and> 1 < length example_heap
          \<and> p_styles ?pc = Some [[]] \<and> (length [[]::string] \<le> 1 \<or> [[]] ! 1 = ([]::string))
          \<and> buildMap example_handler ?pc example_heap
              = (fst (buildMap example_handler ?pc example_heap), Inr ?res)
          \<longrightarrow> (\<exists>d. wmsdefaultstyle (example_heap ! 1) = Some d
                 \<and> styles (m_layers ?res ! 1)
                     = (case mf_aggregatestyles ?mf d of Some names \<Rightarrow> names | None \<Rightarrow> [d]))"
    by blast
  with r have "\<exists>d. wmsdefaultstyle (example_heap ! 1) = Some d
                 \<and> styles (m_layers ?res ! 1)
                     = (case mf_aggregatestyles ?mf d of Some names \<Rightarrow> names | None \<Rightarrow> [d])"
    by (simp add: example_handler_def example_params_def example_heap_def example_mapfactory_def)
  then have "styles (m_layers ?res ! 1) = [''rivers_style'']"
    by (auto simp: example_handler_def example_heap_def example_mapfactory_def)
  with ok have c: "map_sum id (\<lambda>m. styles (m_layers m ! 1))
        (snd (buildMap example_handler ?pc example_heap)) = Inr [''rivers_style'']"
    by auto
  \<comment> \<open>and the name at position 1 is resolved\<close>
  have "\<forall>a sts d.
          mf_layers ?mf ''rivers'' = Some a \<and> a < length example_heap
          \<and> p_styles ?pc = Some sts \<and> (length sts \<le> 1 \<or> sts ! 1 = [])
          \<and> wmsdefaultstyle (example_heap ! a) = Some d
          \<and> (\<forall>s\<in>set (case mf_aggregatestyles ?mf d of Some names \<Rightarrow> names | None \<Rightarrow> [d]).
                 mf_styles ?mf s \<noteq> None)
          \<longrightarrow> (\<exists>h2 m2. ?ld = (h2, Inr m2)
                 \<and> length (m_layers m2) = Suc 1
                 \<and> styles (m_layers m2 ! 1)
                     = (case mf_aggregatestyles ?mf d of Some names \<Rightarrow> names | None \<Rightarrow> [d]))"
    using t by (simp add: example_defs)
  moreover have "mf_layers ?mf ''rivers'' = Some 1" "1 < length example_heap"
    "p_styles ?pc = Some [[]]" "length [[]::string] \<le> 1 \<or> [[]] ! 1 = ([]::string)"
    "wmsdefaultstyle (example_heap ! 1) = Some ''rivers_style''"
    "\<forall>s\<in>set (case mf_aggregatestyles ?mf ''rivers_style'' of
                    Some names \<Rightarrow> names | None \<Rightarrow> [''rivers_style'']).
        mf_styles ?mf s \<noteq> None"
    by (simp_all add: example_handler_def example_params_def example_heap_def
        example_mapfactory_def)
  ultimately obtain h2 m2 where ld: "?ld = (h2, Inr m2)"
    and sd: "styles (m_layers m2 ! 1)
               = (case mf_aggregatestyles ?mf ''rivers_style'' of
                    Some names \<Rightarrow> names | None \<Rightarrow> [''rivers_style''])"
    by blast
  have "(case mf_aggregatestyles ?mf ''rivers_style'' of
           Some names \<Rightarrow> names | None \<Rightarrow> [''rivers_style'']) = [''rivers_style'']"
    by (simp add: example_handler_def example_mapfactory_def)
  with sd have "styles (m_layers m2 ! 1) = [''rivers_style'']" by (simp only:)
  with ld have d: "map_sum id (\<lambda>m. styles (m_layers m ! 1)) (snd ?ld) = Inr [''rivers_style'']"
    by (simp only: snd_conv map_sum.simps)
  from a b c d show ?thesis by simp
qed

text \<open>
  Claim C4 as stated fails when a name before the undefined one raises: for
  \<^verbatim>\<open>layers=roads,lakes\<close> with \<^verbatim>\<open>styles=roads_neon\<close>, where \<^verbatim>\<open>lakes\<close> is neither a meta-layer
  nor a layer of the catalog, \<^verbatim>\<open>_buildMap\<close> raises the exception for the undefined style
  of \<^verbatim>\<open>roads\<close>, not the one for an undefined layer.
\<close>

theorem explicit_layer_first_failure_counterexample:
  "mf_layers example_mapfactory ''lakes'' = None
   \<and> mf_meta_layers example_mapfactory ''lakes'' = None
   \<and> snd (buildMap example_handler
            (example_params\<lparr> p_layers := Some [''roads'', ''lakes''],
                               p_styles := Some [''roads_neon''] \<rparr>) example_heap)
     = Inl (OGCException (Invalid_style ''roads_neon'' ''roads'') (Some ''StyleNotDefined''))"
  by (simp add: buildMap_eval example_defs)

subsection \<open>GetFeatureInfo\<close>

lemmas feature_info_eval = GetFeatureInfo_def feature_info_def query_named_body_def
  query_all_body_def query_features_def write_features_def write_feature_def
  new_TextFeatureInfo_def new_XMLFeatureInfo_def

text \<open>
  Claim C8 at the example request: \<^verbatim>\<open>layers=roads,rivers\<close> and \<^verbatim>\<open>query_layers=rivers\<close>,
  where \<^verbatim>\<open>rivers\<close> is not queryable. Line 344 reads \<^verbatim>\<open>m.layers[layerindex]\<close> with the
  position of the name in \<^verbatim>\<open>query_layers\<close>, which is 0, the position of \<^verbatim>\<open>roads\<close> in the
  Map: the call raises nothing, queries \<^verbatim>\<open>roads\<close> and answers with its feature.
\<close>

theorem GetFeatureInfo_checks_layer_at_query_position:
  "queryable (example_heap ! 1) = False
   \<and> mf_layers example_mapfactory ''rivers'' = Some 1
   \<and> p_query_layers example_params = Some [''rivers'']
   \<and> snd (GetFeatureInfo example_tostring example_query example_handler example_params example_heap)
       = Inr \<lparr> content_type = ''text/plain'',
               content = newline @ ''[roads]'' @ newline @ ''name=A1'' @ newline \<rparr>"
  by (simp add: feature_info_eval buildMap_eval example_defs example_query_def)

lemma write_no_features [simp]: "write_features n [] w = Inr w"
  by (simp add: write_features_def)

lemma in_enumerate_bound: "x \<in> set (enumerate 0 xs) \<Longrightarrow> fst x < length xs"
  by (simp add: in_set_enumerate_eq)

lemma query_all_nothing:
  assumes "\<forall>x\<in>set xs. \<forall>i j. p_i params = Some i \<and> p_j params = Some j
             \<longrightarrow> query m (fst x) i j = []"
  shows "for_each_local (query_all_body query params m) xs w = Inr w' \<Longrightarrow> w' = w"
  using assms
proof (induction xs arbitrary: w)
  case Nil
  then show ?case by simp
next
  case (Cons x xs)
  obtain li l where x: "x = (li, l)" by (cases x)
  from Cons.prems x have "query_all_body query params m x w = Inr w"
    by (auto simp: query_all_body_def query_features_def split: option.splits sum.splits)
  with Cons show ?case by simp
qed

lemma query_named_nothing:
  assumes "\<forall>x\<in>set xs. \<forall>i j. p_i params = Some i \<and> p_j params = Some j
             \<longrightarrow> query m (fst x) i j = []"
  shows "for_each_local (query_named_body query params m) xs w = Inr w' \<Longrightarrow> w' = w"
  using assms
proof (induction xs arbitrary: w)
  case Nil
  then show ?case by simp
next
  case (Cons x xs)
  obtain li l where x: "x = (li, l)" by (cases x)
  from Cons.prems x have "query_named_body query params m x w = Inr w"
    by (auto simp: query_named_body_def query_features_def
        split: option.splits sum.splits if_splits)
  with Cons show ?case by simp
qed

text \<open>
  Claim C10. \<^verbatim>\<open>GetFeatureInfo\<close> returns a Response, and no point query that the call
  makes finds a feature: at the requested pixel \<^verbatim>\<open>(i, j)\<close>, the query is empty for every
  layer of the Map when \<^verbatim>\<open>query_layers\<close> is \<^verbatim>\<open>__all__\<close>, and for every position of
  \<^verbatim>\<open>query_layers\<close> otherwise (line 345 queries the Map's layer at that position). Then
  the content type of the Response is the requested \<^verbatim>\<open>info_format\<close>, which is one of the
  two formats, and the content is the empty string for \<^verbatim>\<open>text/plain\<close> and, for
  \<^verbatim>\<open>text/xml\<close>, the XML declaration followed by the serialized root element
  \<^verbatim>\<open>resultset\<close> of \<^verbatim>\<open>basexml\<close>, which has no child.
\<close>

theorem GetFeatureInfo_without_features:
  assumes "GetFeatureInfo tostring query self params h = (h', Inr resp)"
    and "buildMap self params h = (h'', Inr m)"
    and "\<forall>ql layerindex i j.
           p_query_layers params = Some ql
           \<and> layerindex < (if ql \<noteq> [] \<and> hd ql = ''__all__''
                            then length (m_layers m) else length ql)
           \<and> p_i params = Some i \<and> p_j params = Some j
           \<longrightarrow> query m layerindex i j = []"
  shows "p_info_format params = Some (content_type resp)
       \<and> (content_type resp = ''text/plain'' \<and> content resp = []
          \<or> content_type resp = ''text/xml''
            \<and> content resp
                = xml_declaration @ tostring (Element ''resultset'' [] (Some (newline @ ''    '')) [])
            \<and> xml_children (Element ''resultset'' [] (Some (newline @ ''    '')) []) = [])"
proof -
  from assms(1,2) have fi: "feature_info tostring query params m = Inr resp"
    by (simp add: GetFeatureInfo_def)
  then obtain fmt where fmt: "p_info_format params = Some fmt"
    by (cases "p_info_format params") (simp_all add: feature_info_def)
  from fi fmt obtain ql where ql: "p_query_layers params = Some ql"
    by (cases "p_query_layers params") (simp_all add: feature_info_def Let_def)
  let ?w = "if fmt = ''text/plain'' then Some new_TextFeatureInfo
            else if fmt = ''text/xml'' then Some new_XMLFeatureInfo else None"
  let ?loop = "if ql \<noteq> [] \<and> hd ql = ''__all__''
               then for_each_local (query_all_body query params m) (enumerate 0 (m_layers m)) ?w
               else for_each_local (query_named_body query params m) (enumerate 0 ql) ?w"
  from fi fmt ql have r: "(case ?loop of
        Inl e \<Rightarrow> Inl e
      | Inr None \<Rightarrow> Inl (UnboundLocalError ''writer'')
      | Inr (Some w) \<Rightarrow> Inr \<lparr> content_type = fmt, content = writer_str tostring w \<rparr>) = Inr resp"
    by (simp add: feature_info_def Let_def)
  then obtain w where lw: "?loop = Inr (Some w)"
    and resp: "resp = \<lparr> content_type = fmt, content = writer_str tostring w \<rparr>"
    by (auto split: sum.splits option.splits)
  have "Some w = ?w"
  proof (cases "ql \<noteq> [] \<and> hd ql = ''__all__''")
    case True
    with assms(3) ql have "\<forall>x\<in>set (enumerate 0 (m_layers m)).
        \<forall>i j. p_i params = Some i \<and> p_j params = Some j \<longrightarrow> query m (fst x) i j = []"
      using in_enumerate_bound[of _ "m_layers m"] by auto
    note qa = query_all_nothing[where query = query and m = m, OF this]
    from True lw have "for_each_local (query_all_body query params m) (enumerate 0 (m_layers m)) ?w
        = Inr (Some w)" by simp
    from qa[OF this] show ?thesis .
  next
    case False
    with assms(3) ql have "\<forall>x\<in>set (enumerate 0 ql).
        \<forall>i j. p_i params = Some i \<and> p_j params = Some j \<longrightarrow> query m (fst x) i j = []"
      using in_enumerate_bound[of _ ql] by auto
    note qn = query_named_nothing[where query = query and m = m, OF this]
    from False lw have "for_each_local (query_named_body query params m) (enumerate 0 ql) ?w
        = Inr (Some w)" by auto
    from qn[OF this] show ?thesis .
  qed
  with resp fmt show ?thesis
    by (auto simp: new_TextFeatureInfo_def new_XMLFeatureInfo_def split: if_splits)
qed

text \<open>
  The theorem at the example request (pixel (1, 1)) with a point query that finds a
  feature at every other pixel, in each of the two formats.
\<close>

theorem GetFeatureInfo_without_features_witness:
  "map_sum id content_type
     (snd (GetFeatureInfo example_tostring features_off_pixel example_handler
             (example_params\<lparr> p_query_layers := Some [''roads''] \<rparr>) example_heap))
     = Inr ''text/plain''
   \<and> map_sum id content
     (snd (GetFeatureInfo example_tostring features_off_pixel example_handler
             (example_params\<lparr> p_query_layers := Some [''roads''] \<rparr>) example_heap))
     = Inr []
   \<and> map_sum id content
     (snd (GetFeatureInfo example_tostring features_off_pixel example_handler
             (example_params\<lparr> p_query_layers := Some [''__all__''],
                                p_info_format := Some ''text/xml'' \<rparr>) example_heap))
     = Inr (xml_declaration @ ''<resultset>'' @ newline @ ''    </resultset>'')
   \<and> features_off_pixel
         (projr (snd (buildMap example_handler example_params example_heap))) 0 2 2 \<noteq> []"
proof -
  let ?p1 = "example_params\<lparr> p_query_layers := Some [''roads''] \<rparr>"
  let ?p2 = "example_params\<lparr> p_query_layers := Some [''__all__''],
                               p_info_format := Some ''text/xml'' \<rparr>"
  let ?g1 = "GetFeatureInfo example_tostring features_off_pixel example_handler ?p1 example_heap"
  let ?g2 = "GetFeatureInfo example_tostring features_off_pixel example_handler ?p2 example_heap"
  let ?b1 = "buildMap example_handler ?p1 example_heap"
  let ?b2 = "buildMap example_handler ?p2 example_heap"
  have "\<exists>r. snd ?g1 = Inr r"
    by (simp add: feature_info_eval buildMap_eval example_defs features_off_pixel_def)
  then have g1: "?g1 = (fst ?g1, Inr (projr (snd ?g1)))" by (metis prod.collapse sum.sel(2))
  have "\<exists>r. snd ?g2 = Inr r"
    by (simp add: feature_info_eval buildMap_eval example_defs features_off_pixel_def)
  then have g2: "?g2 = (fst ?g2, Inr (projr (snd ?g2)))" by (metis prod.collapse sum.sel(2))
  have "\<exists>r. snd ?b1 = Inr r" by (simp add: buildMap_eval example_defs)
  then have b1: "?b1 = (fst ?b1, Inr (projr (snd ?b1)))" by (metis prod.collapse sum.sel(2))
  have "\<exists>r. snd ?b2 = Inr r" by (simp add: buildMap_eval example_defs)
  then have b2: "?b2 = (fst ?b2, Inr (projr (snd ?b2)))" by (metis prod.collapse sum.sel(2))
  have q1: "\<And>m. \<forall>ql layerindex i j.
           p_query_layers ?p1 = Some ql
           \<and> layerindex < (if ql \<noteq> [] \<and> hd ql = ''__all__''
                            then length (m_layers m) else length ql)
           \<and> p_i ?p1 = Some i \<and> p_j ?p1 = Some j
           \<longrightarrow> features_off_pixel m layerindex i j = []"
    by (simp add: features_off_pixel_def example_params_def)
  have q2: "\<And>m. \<forall>ql layerindex i j.
           p_query_layers ?p2 = Some ql
           \<and> layerindex < (if ql \<noteq> [] \<and> hd ql = ''__all__''
                            then length (m_layers m) else length ql)
           \<and> p_i ?p2 = Some i \<and> p_j ?p2 = Some j
           \<longrightarrow> features_off_pixel m layerindex i j = []"
    by (simp add: features_off_pixel_def example_params_def)
  from GetFeatureInfo_without_features[OF g1 b1 q1]
  have 1: "content_type (projr (snd ?g1)) = ''text/plain'' \<and> content (projr (snd ?g1)) = []"
    by (auto simp: example_params_def)
  from GetFeatureInfo_without_features[OF g2 b2 q2]
  have 2: "content (projr (snd ?g2))
      = xml_declaration @ ''<resultset>'' @ newline @ ''    </resultset>''"
    by (auto simp: example_params_def)
  from g1 have s1: "snd ?g1 = Inr (projr (snd ?g1))" by (metis snd_conv)
  from g2 have s2: "snd ?g2 = Inr (projr (snd ?g2))" by (metis snd_conv)
  have "map_sum id content_type (snd ?g1) = Inr ''text/plain''"
    by (subst s1) (simp add: 1)
  moreover have "map_sum id content (snd ?g1) = Inr []"
    by (subst s1) (simp add: 1)
  moreover have "map_sum id content (snd ?g2)
      = Inr (xml_declaration @ ''<resultset>'' @ newline @ ''    </resultset>'')"
    by (subst s2) (simp add: 2)
  moreover have "features_off_pixel
         (projr (snd (buildMap example_handler example_params example_heap))) 0 2 2 \<noteq> []"
    by (simp add: features_off_pixel_def)
  ultimately show ?thesis by blast
qed

end
